theory Spec2Isabelle
  imports Complex_Main "HOL-Library.Multiset"
begin

section \<open>TVL chart data: \<open>get-tvl-chart-data.ts\<close>\<close>

text \<open>
  The development embeds the functions of
  \<^verbatim>\<open>packages/frontend2/src/server/features/scaling/tvl/utils/get-tvl-chart-data.ts\<close>:
  \<open>getChartData\<close>, the latest-total step of \<open>getCachedTvlChartData\<close> and
  \<open>getMockTvlChartData\<close>.

  Conventions of the embedding.
  \<^item> A JavaScript \<open>number\<close> is a finite binary64 value, held as the \<open>real\<close> it denotes.
    Every arithmetic operation of the code (\<open>Number(bigint)\<close>, \<open>*\<close>, \<open>+\<close>, \<open>/\<close>) rounds its
    exact result to the nearest such value, ties to even, as IEEE 754 prescribes
    (\<open>toDouble\<close>). Two things are left out: \<open>-0\<close> is not told apart from \<open>0\<close>, and a result
    whose magnitude would reach \<open>2^1024\<close> (\<open>Infinity\<close> in JavaScript) is outside the model.
    The division \<open>total / ethPrice\<close> returns a \<open>JsNumber\<close>, with the infinities and NaN of a
    division by zero spelled out.
  \<^item> The \<open>bigint\<close> magnitude of a value record is a \<open>nat\<close> (a magnitude is not negative).
  \<^item> A timestamp used as an object key is a \<open>nat\<close>: it stands for the canonical decimal
    string of that number, which is what a numeric key becomes in a JavaScript object.
    \<open>+timestamp\<close> turns it back into the number.
  \<^item> \<open>assert(x, msg)\<close> throws; the model returns \<open>Inl\<close> of an \<open>error\<close>.
\<close>

subsection \<open>JavaScript objects as ordered dictionaries\<close>

text \<open>
  \<open>Object.entries\<close> and \<open>Object.values\<close> enumerate the own keys of an object in the order
  of the language: first the keys that are array indices (canonical numeric strings below
  \<open>2^32 - 1\<close>) in ascending numeric order, then the other string keys in the order in
  which they were created. A dictionary is the list of its entries in that order.
\<close>

type_synonym 'v Dictionary = "(nat \<times> 'v) list"

definition isArrayIndex :: "nat \<Rightarrow> bool" where
  "isArrayIndex k = (k < 4294967295)"

text \<open>\<open>obj[k]\<close>: the value of the property, \<open>None\<close> for \<open>undefined\<close>.\<close>

definition getProp :: "'v Dictionary \<Rightarrow> nat \<Rightarrow> 'v option" where
  "getProp d k = map_of d k"

text \<open>Assignment to a property that exists keeps its place in the enumeration.\<close>

fun replaceProp :: "nat \<Rightarrow> 'v \<Rightarrow> 'v Dictionary \<Rightarrow> 'v Dictionary" where
  "replaceProp k v [] = []"
| "replaceProp k v ((k', v') # d) =
     (if k' = k then (k, v) # d else (k', v') # replaceProp k v d)"

text \<open>A new array-index key is enumerated after the smaller array indices and before
  everything else.\<close>

fun insertIndex :: "nat \<Rightarrow> 'v \<Rightarrow> 'v Dictionary \<Rightarrow> 'v Dictionary" where
  "insertIndex k v [] = [(k, v)]"
| "insertIndex k v ((k', v') # d) =
     (if isArrayIndex k' \<and> k' < k then (k', v') # insertIndex k v d
      else (k, v) # (k', v') # d)"

text \<open>\<open>obj[k] = v\<close>.\<close>

definition setProp :: "nat \<Rightarrow> 'v \<Rightarrow> 'v Dictionary \<Rightarrow> 'v Dictionary" where
  "setProp k v d =
     (if getProp d k \<noteq> None then replaceProp k v d
      else if isArrayIndex k then insertIndex k v d
      else d @ [(k, v)])"

subsection \<open>JavaScript numbers\<close>

text \<open>Rounding to the nearest integer, ties to the even one.\<close>

definition roundHalfEven :: "real \<Rightarrow> int" where
  "roundHalfEven y =
     (let f = \<lfloor>y\<rfloor>; d = y - of_int f
      in if d < 1 / 2 then f else if 1 / 2 < d then f + 1 else if even f then f else f + 1)"

text \<open>The exponent of the binade of a number that is not zero; numbers below the least
  normal number \<open>2^-1022\<close> share its exponent (the subnormal numbers).\<close>

definition binaryExponent :: "real \<Rightarrow> int" where
  "binaryExponent x = max \<lfloor>log 2 \<bar>x\<bar>\<rfloor> (- 1022)"

text \<open>The binary64 value nearest to a real number: a multiple of the spacing
  \<open>2^(e - 52)\<close> of its binade, with 53 significant bits.\<close>

definition toDouble :: "real \<Rightarrow> real" where
  "toDouble x =
     (if x = 0 then 0
      else let q = 2 powi (binaryExponent x - 52)
           in of_int (roundHalfEven (x / q)) * q)"

text \<open>\<open>Number(b)\<close> for a \<open>bigint\<close>, and the operators \<open>*\<close> and \<open>+\<close> on numbers.\<close>

definition bigintToNumber :: "nat \<Rightarrow> real" where
  "bigintToNumber b = toDouble (real b)"

definition jsMultiply :: "real \<Rightarrow> real \<Rightarrow> real" where
  "jsMultiply x y = toDouble (x * y)"

definition jsAdd :: "real \<Rightarrow> real \<Rightarrow> real" where
  "jsAdd x y = toDouble (x + y)"

subsection \<open>Value records and the sum per source\<close>

datatype Source = Native | Canonical | External | Other

text \<open>
  Modelled from the spec: the type \<open>ValueRecord\<close> of \<open>@l2beat/database\<close> is not among the
  sources. The spec gives a record a timestamp, a source category and a monetary
  magnitude in a fixed-point integer representation, and speaks of a designated subset of
  token categories (the associated tokens); \<open>associated\<close> marks a record of that subset.
\<close>

record ValueRecord =
  recordTimestamp :: nat
  source :: Source
  val :: nat
  associated :: bool

record SumOptions =
  forTotal :: bool
  excludeAssociatedTokens :: bool

record Summed =
  native :: nat
  canonical :: nat
  external :: nat

text \<open>
  Modelled from the spec: \<open>sumValuesPerSource\<close> of \<open>./sum-values-per-source\<close> is not among
  the sources. By the spec it is a pure function
  \<open>(records, {forTotal, excludeAssociatedTokens}) -> {native, canonical, external}\<close> that
  returns the summed magnitudes per source and honours \<open>excludeAssociatedTokens\<close> by
  excluding the designated subset from the canonical and native totals. The spec gives
  \<open>forTotal\<close> no meaning, so the model does not read it.
\<close>

definition sumSource :: "(ValueRecord \<Rightarrow> bool) \<Rightarrow> ValueRecord list \<Rightarrow> nat" where
  "sumSource keep records = sum_list (map val (filter keep records))"

definition sumValuesPerSource :: "ValueRecord list \<Rightarrow> SumOptions \<Rightarrow> Summed" where
  "sumValuesPerSource records options =
     \<lparr> native = sumSource (\<lambda>r. source r = Native \<and>
          \<not> (excludeAssociatedTokens options \<and> associated r)) records,
       canonical = sumSource (\<lambda>r. source r = Canonical \<and>
          \<not> (excludeAssociatedTokens options \<and> associated r)) records,
       external = sumSource (\<lambda>r. source r = External) records \<rparr>"

subsection \<open>\<open>getChartData\<close>\<close>

datatype error =
    NoEthPrice nat  \<comment> \<open>\<open>assert(ethPrice, 'No ETH price for ' + timestamp)\<close>\<close>
  | NoLatestValue   \<comment> \<open>\<open>assert(latestValue, 'No latest value')\<close>\<close>

text \<open>A chart point is the tuple \<open>[timestamp, native, canonical, external, ethPrice]\<close>.\<close>

type_synonym ChartPoint = "int \<times> real \<times> real \<times> real \<times> real"

text \<open>\<open>Dictionary<Dictionary<ValueRecord[]>>\<close>: project identifier, then timestamp. The
  outer object is the list of its entries in enumeration order.\<close>

type_synonym ProjectValues = "(string \<times> ValueRecord list Dictionary) list"

text \<open>The body of the inner loop (lines 93 and 94).\<close>

definition addEntry ::
  "nat \<times> ValueRecord list \<Rightarrow> ValueRecord list Dictionary \<Rightarrow> ValueRecord list Dictionary"
where
  "addEntry e timestampValues =
     (case e of (timestamp, values) \<Rightarrow>
        let m = (case getProp timestampValues timestamp of None \<Rightarrow> [] | Some m \<Rightarrow> m)
        in setProp timestamp (m @ values) timestampValues)"

text \<open>The two nested loops (lines 89 to 96).\<close>

definition mergeTimestampValues :: "ProjectValues \<Rightarrow> ValueRecord list Dictionary" where
  "mergeTimestampValues values =
     fold (\<lambda>projectValues timestampValues. fold addEntry projectValues timestampValues)
       (map snd values) []"

text \<open>\<open>Array.prototype.map\<close> with a callback that may throw: the first exception aborts.\<close>

fun mapThrowing :: "('a \<Rightarrow> error + 'b) \<Rightarrow> 'a list \<Rightarrow> error + 'b list" where
  "mapThrowing f [] = Inr []"
| "mapThrowing f (x # xs) =
     (case f x of
        Inl e \<Rightarrow> Inl e
      | Inr y \<Rightarrow> (case mapThrowing f xs of Inl e \<Rightarrow> Inl e | Inr ys \<Rightarrow> Inr (y # ys)))"

text \<open>The callback of lines 98 to 111. \<open>assert(ethPrice, ...)\<close> tests truthiness: it
  throws for \<open>undefined\<close> and for \<open>0\<close>.\<close>

definition chartPoint ::
  "(nat \<rightharpoonup> real) \<Rightarrow> bool \<Rightarrow> nat \<times> ValueRecord list \<Rightarrow> error + ChartPoint"
where
  "chartPoint ethPrices exclude e =
     (case e of (timestamp, values) \<Rightarrow>
        let summed = sumValuesPerSource values
              \<lparr> forTotal = True, excludeAssociatedTokens = exclude \<rparr>
        in (case ethPrices timestamp of
              None \<Rightarrow> Inl (NoEthPrice timestamp)
            | Some ethPrice \<Rightarrow>
                if ethPrice = 0 then Inl (NoEthPrice timestamp)
                else Inr (int timestamp, bigintToNumber (native summed),
                          bigintToNumber (canonical summed),
                          bigintToNumber (external summed), jsMultiply ethPrice 100)))"

definition getChartData ::
  "ProjectValues \<Rightarrow> (nat \<rightharpoonup> real) \<Rightarrow> bool \<Rightarrow> error + ChartPoint list"
where
  "getChartData values ethPrices exclude =
     mapThrowing (chartPoint ethPrices exclude) (mergeTimestampValues values)"

subsection \<open>The latest total of \<open>getCachedTvlChartData\<close>\<close>

text \<open>The operator \<open>/\<close> on two finite numbers: the rounded quotient; a division by zero
  does not throw, it gives an infinity or NaN.\<close>

datatype JsNumber = Num real | PosInf | NegInf | NaN

definition jsDivide :: "real \<Rightarrow> real \<Rightarrow> JsNumber" where
  "jsDivide x y =
     (if y \<noteq> 0 then Num (toDouble (x / y))
      else if 0 < x then PosInf else if x < 0 then NegInf else NaN)"

text \<open>\<open>Array.prototype.at\<close>: a negative index counts from the end, an index out of range
  gives \<open>undefined\<close>.\<close>

definition arrayAt :: "'a list \<Rightarrow> int \<Rightarrow> 'a option" where
  "arrayAt xs i =
     (let n = int (length xs); k = (if i < 0 then n + i else i)
      in if k < 0 \<or> n \<le> k then None else Some (xs ! nat k))"

record Total =
  usd :: JsNumber
  eth :: JsNumber

record TvlChartData =
  total :: Total
  chart :: "ChartPoint list"

text \<open>Lines 66 and 67: \<open>lastWeekChart.at(-1)\<close> and the assertion on it. A chart point is
  an array, hence truthy: the assertion fails for \<open>undefined\<close> only.\<close>

definition latestValue :: "ChartPoint list \<Rightarrow> error + ChartPoint" where
  "latestValue lastWeekChart =
     (case arrayAt lastWeekChart (- 1) of
        None \<Rightarrow> Inl NoLatestValue
      | Some p \<Rightarrow> Inr p)"

text \<open>Lines 66 to 76.\<close>

definition latestTotal :: "ChartPoint list \<Rightarrow> error + Total" where
  "latestTotal lastWeekChart =
     (case latestValue lastWeekChart of
        Inl e \<Rightarrow> Inl e
      | Inr (t, n, c, e, ethPrice) \<Rightarrow>
          let totalValue = jsAdd (jsAdd n c) e
          in Inr \<lparr> usd = jsDivide totalValue 100, eth = jsDivide totalValue ethPrice \<rparr>)"

text \<open>
  \<open>getCachedTvlChartData\<close>, lines 52 to 79. The projects, their filter and the two fetches
  are not among the sources: \<open>getTvlValuesForProjects\<close> stands for the fetch of the values
  of the filtered projects over a range, \<open>ethPrices\<close> for the fetched prices.
  \<open>excludeAssociatedTokens\<close> is optional, and \<open>!!excludeAssociatedTokens\<close> is true for
  \<open>true\<close> only.
\<close>

definition getCachedTvlChartData ::
  "(string \<Rightarrow> ProjectValues) \<Rightarrow> (nat \<rightharpoonup> real) \<Rightarrow> string \<Rightarrow> bool option \<Rightarrow> error + TvlChartData"
where
  "getCachedTvlChartData getTvlValuesForProjects ethPrices range' excludeAssociated =
     (let values = getTvlValuesForProjects range';
          lastWeekValues = (if range' = ''7d'' then values else getTvlValuesForProjects ''7d'');
          exclude = (excludeAssociated = Some True)
      in case getChartData lastWeekValues ethPrices exclude of
           Inl e \<Rightarrow> Inl e
         | Inr lastWeekChart \<Rightarrow>
             (case latestTotal lastWeekChart of
                Inl e \<Rightarrow> Inl e
              | Inr t \<Rightarrow>
                  (case getChartData values ethPrices exclude of
                     Inl e \<Rightarrow> Inl e
                   | Inr c \<Rightarrow> Inr \<lparr> total = t, chart = c \<rparr>)))"

subsection \<open>\<open>getMockTvlChartData\<close>\<close>

type_synonym UnixTime = int

datatype Resolution = Hourly | Daily

datatype Days = DayCount nat | Infinity

record RangeConfig =
  days :: Days
  resolution :: Resolution

definition HOUR :: int where "HOUR = 3600"

definition DAY :: int where "DAY = 86400"

text \<open>
  Modelled from the spec: the class \<open>UnixTime\<close> of \<open>@l2beat/shared-pure\<close> is not among the
  sources. A time is its number of seconds; \<open>toStartOf('hour')\<close> and \<open>toStartOf('day')\<close>
  round down to the hour and to the day, and \<open>add(n, 'days')\<close> moves by \<open>n\<close> days (the
  spec's "target - 7 days").
\<close>

datatype StartOf = StartOfHour | StartOfDay

definition toStartOf :: "UnixTime \<Rightarrow> StartOf \<Rightarrow> UnixTime" where
  "toStartOf t u = (case u of StartOfHour \<Rightarrow> t - t mod HOUR | StartOfDay \<Rightarrow> t - t mod DAY)"

definition addDays :: "UnixTime \<Rightarrow> int \<Rightarrow> UnixTime" where
  "addDays t n = t + n * DAY"

text \<open>
  Modelled from the spec: \<open>generateTimestamps\<close> of
  \<open>~/server/features/utils/generate-timestamps\<close> is not among the sources. By the spec it
  produces evenly spaced timestamps over the requested range, one per bucket of the
  resolution, with both boundaries included.
\<close>

definition generateTimestamps :: "UnixTime \<times> UnixTime \<Rightarrow> Resolution \<Rightarrow> UnixTime list" where
  "generateTimestamps fromTo r =
     (case fromTo of (from, to) \<Rightarrow>
        let step = (case r of Hourly \<Rightarrow> HOUR | Daily \<Rightarrow> DAY)
        in if to < from then []
           else map (\<lambda>i. from + int i * step) [0 ..< nat ((to - from) div step) + 1])"

text \<open>
  Lines 114 to 132. \<open>getRangeConfig\<close> and \<open>getTvlTargetTimestamp\<close> are not among the
  sources: the first is a parameter, the second the time it returns.
\<close>

definition getMockTvlChartData ::
  "(string \<Rightarrow> RangeConfig) \<Rightarrow> UnixTime \<Rightarrow> string \<Rightarrow> TvlChartData"
where
  "getMockTvlChartData getRangeConfig getTvlTargetTimestamp range' =
     (let config = getRangeConfig range';
          target = toStartOf getTvlTargetTimestamp
            (if resolution config = Hourly then StartOfHour else StartOfDay);
          from = (case days config of
                    DayCount d \<Rightarrow> addDays target (- int d)
                  | Infinity \<Rightarrow> 1573776000);
          timestamps = generateTimestamps (from, target) (resolution config)
      in \<lparr> total = \<lparr> usd = Num 60, eth = Num 5 \<rparr>,
           chart = map (\<lambda>timestamp. (timestamp, 3000, 2000, 1000, 1200)) timestamps \<rparr>)"

subsection \<open>Notions used to state the properties\<close>

text \<open>All entries \<open>(timestamp, records)\<close> of all projects, in the order in which the two
  loops of \<open>getChartData\<close> visit them.\<close>

definition allEntries :: "ProjectValues \<Rightarrow> (nat \<times> ValueRecord list) list" where
  "allEntries values = concat (map snd values)"

text \<open>The distinct timestamps that appear across all projects.\<close>

definition timestampsOf :: "ProjectValues \<Rightarrow> nat set" where
  "timestampsOf values = fst ` set (allEntries values)"

text \<open>The records of every entry with timestamp \<open>t\<close>, concatenated in the order of the
  entries.\<close>

definition recordsAt :: "nat \<Rightarrow> (nat \<times> ValueRecord list) list \<Rightarrow> ValueRecord list" where
  "recordsAt t es = concat (map snd (filter (\<lambda>e. fst e = t) es))"

text \<open>The price map has a truthy entry for the timestamp: present and not zero.\<close>

definition hasEthPrice :: "(nat \<rightharpoonup> real) \<Rightarrow> nat \<Rightarrow> bool" where
  "hasEthPrice ethPrices t = (case ethPrices t of None \<Rightarrow> False | Some p \<Rightarrow> p \<noteq> 0)"

text \<open>The order in which keys are first assigned (the insertion order of a map that
  keeps it).\<close>

definition created :: "nat \<Rightarrow> nat list \<Rightarrow> nat list" where
  "created k ks = (if k \<in> set ks then ks else ks @ [k])"

definition creationOrder :: "ProjectValues \<Rightarrow> nat list" where
  "creationOrder values = fold created (map fst (allEntries values)) []"

text \<open>The chart point that the callback returns for an entry when it does not throw.\<close>

definition pointAt ::
  "(nat \<rightharpoonup> real) \<Rightarrow> bool \<Rightarrow> nat \<times> ValueRecord list \<Rightarrow> ChartPoint"
where
  "pointAt ethPrices exclude e =
     (let summed = sumValuesPerSource (snd e)
            \<lparr> forTotal = True, excludeAssociatedTokens = exclude \<rparr>
      in (int (fst e), bigintToNumber (native summed), bigintToNumber (canonical summed),
          bigintToNumber (external summed), jsMultiply (the (ethPrices (fst e))) 100))"

text \<open>The sums per source of all records with timestamp \<open>t\<close>, as line 99 computes them
  for the merged records of that timestamp.\<close>

definition summedAt :: "ProjectValues \<Rightarrow> bool \<Rightarrow> nat \<Rightarrow> Summed" where
  "summedAt values exclude t =
     sumValuesPerSource (recordsAt t (allEntries values))
       \<lparr> forTotal = True, excludeAssociatedTokens = exclude \<rparr>"

section \<open>Properties\<close>

subsection \<open>Numbers\<close>

lemma floor_log2_eq:
  assumes "2 powi k \<le> x" and "x < 2 powi (k + 1)"
  shows "\<lfloor>log 2 x\<rfloor> = k"
proof -
  have pos: "0 < x"
    using assms(1) by (rule less_le_trans [OF zero_less_power_int, rotated]) simp
  have "2 powr (real_of_int k) = (2::real) powi k"
    by (simp add: powr_real_of_int')
  moreover have "2 powr (real_of_int (k + 1)) = (2::real) powi (k + 1)"
    by (rule powr_real_of_int') simp_all
  then have "2 powr (real_of_int k + 1) = (2::real) powi (k + 1)"
    by (simp add: add.commute)
  ultimately have "2 powr (real_of_int k) \<le> x \<and> x < 2 powr (real_of_int k + 1)"
    using assms by simp
  with pos show ?thesis
    by (simp add: floor_log_eq_powr_iff)
qed

lemma floor_log2_bounds:
  assumes "0 < x"
  shows "2 powi \<lfloor>log 2 x\<rfloor> \<le> x" and "x < 2 powi (\<lfloor>log 2 x\<rfloor> + 1)"
proof -
  have "2 powr (real_of_int \<lfloor>log 2 x\<rfloor>) \<le> x \<and> x < 2 powr (real_of_int \<lfloor>log 2 x\<rfloor> + 1)"
    using assms floor_log_eq_powr_iff [of x 2 "\<lfloor>log 2 x\<rfloor>"] by simp
  moreover have "2 powr (real_of_int \<lfloor>log 2 x\<rfloor>) = (2::real) powi \<lfloor>log 2 x\<rfloor>"
    by (simp add: powr_real_of_int')
  moreover have "2 powr (real_of_int (\<lfloor>log 2 x\<rfloor> + 1)) = (2::real) powi (\<lfloor>log 2 x\<rfloor> + 1)"
    by (rule powr_real_of_int') simp_all
  then have "2 powr (real_of_int \<lfloor>log 2 x\<rfloor> + 1) = (2::real) powi (\<lfloor>log 2 x\<rfloor> + 1)"
    by (simp add: add.commute)
  ultimately show "2 powi \<lfloor>log 2 x\<rfloor> \<le> x" and "x < 2 powi (\<lfloor>log 2 x\<rfloor> + 1)"
    by simp_all
qed

lemma binaryExponent_eq:
  "2 powi k \<le> \<bar>x\<bar> \<Longrightarrow> \<bar>x\<bar> < 2 powi (k + 1) \<Longrightarrow> - 1022 \<le> k \<Longrightarrow> binaryExponent x = k"
  by (simp add: binaryExponent_def floor_log2_eq)

lemma roundHalfEven_of_int [simp]: "roundHalfEven (of_int m) = m"
  by (simp add: roundHalfEven_def)

lemma roundHalfEven_0 [simp]: "roundHalfEven 0 = 0"
  using roundHalfEven_of_int [of 0] by simp

lemma roundHalfEven_mono: "a \<le> b \<Longrightarrow> roundHalfEven a \<le> roundHalfEven b"
proof -
  assume ab: "a \<le> b"
  have lo: "\<lfloor>y\<rfloor> \<le> roundHalfEven y" and hi: "roundHalfEven y \<le> \<lfloor>y\<rfloor> + 1" for y
    by (simp_all add: roundHalfEven_def Let_def)
  from ab have fl: "\<lfloor>a\<rfloor> \<le> \<lfloor>b\<rfloor>" by (rule floor_mono)
  show ?thesis
  proof (cases "\<lfloor>a\<rfloor> = \<lfloor>b\<rfloor>")
    case True
    with ab have "a - of_int \<lfloor>a\<rfloor> \<le> b - of_int \<lfloor>b\<rfloor>" by simp
    with True show ?thesis
      by (auto simp: roundHalfEven_def Let_def)
  next
    case False
    with fl have "\<lfloor>a\<rfloor> + 1 \<le> \<lfloor>b\<rfloor>" by simp
    with hi [of a] lo [of b] show ?thesis by linarith
  qed
qed

lemma roundHalfEven_between:
  "of_int l \<le> y \<Longrightarrow> y \<le> of_int u \<Longrightarrow> l \<le> roundHalfEven y \<and> roundHalfEven y \<le> u"
  using roundHalfEven_mono [of "of_int l" y] roundHalfEven_mono [of y "of_int u"] by simp

text \<open>A normal positive number is rounded within its closed binade.\<close>

lemma toDouble_binade:
  assumes "2 powi k \<le> x" and "x < 2 powi (k + 1)" and "- 1022 \<le> k"
  shows "2 powi k \<le> toDouble x" and "toDouble x \<le> 2 powi (k + 1)"
    and "toDouble x = of_int (roundHalfEven (x / 2 powi (k - 52))) * 2 powi (k - 52)"
proof -
  have pos: "0 < x"
    using assms(1) by (rule less_le_trans [OF zero_less_power_int, rotated]) simp
  then have abs: "\<bar>x\<bar> = x" by simp
  have e: "binaryExponent x = k"
    using assms by (simp add: binaryExponent_eq abs)
  define q :: real where "q = 2 powi (k - 52)"
  have q: "0 < q" by (simp add: q_def)
  show eq: "toDouble x = of_int (roundHalfEven (x / 2 powi (k - 52))) * 2 powi (k - 52)"
    using pos by (simp add: toDouble_def e Let_def)
  have k1: "(2::real) powi k = 2 ^ 52 * q"
    unfolding q_def by (simp add: power_int_diff)
  have k2: "(2::real) powi (k + 1) = 2 ^ 53 * q"
    unfolding q_def by (simp add: power_int_diff power_int_add)
  from assms(1) q have "2 ^ 52 \<le> x / q"
    unfolding k1 by (simp add: pos_le_divide_eq)
  moreover from assms(2) q have "x / q \<le> 2 ^ 53"
    unfolding k2 by (simp add: pos_divide_le_eq)
  ultimately have "of_int (2 ^ 52) \<le> x / q" "x / q \<le> of_int (2 ^ 53)"
    by simp_all
  then have "2 ^ 52 \<le> roundHalfEven (x / q) \<and> roundHalfEven (x / q) \<le> 2 ^ 53"
    by (rule roundHalfEven_between)
  then have "real_of_int (2 ^ 52) \<le> of_int (roundHalfEven (x / q))"
    "real_of_int (roundHalfEven (x / q)) \<le> of_int (2 ^ 53)"
    by (simp_all only: of_int_le_iff)
  then have "(2::real) ^ 52 \<le> of_int (roundHalfEven (x / q))" "of_int (roundHalfEven (x / q)) \<le> (2::real) ^ 53"
    by simp_all
  with q have "2 ^ 52 * q \<le> of_int (roundHalfEven (x / q)) * q" "of_int (roundHalfEven (x / q)) * q \<le> 2 ^ 53 * q"
    by simp_all
  then show "2 powi k \<le> toDouble x" and "toDouble x \<le> 2 powi (k + 1)"
    unfolding eq k1 k2 q_def by simp_all
qed

lemma toDouble_mono_ge1:
  assumes "1 \<le> x" and "x \<le> y"
  shows "toDouble x \<le> toDouble y"
proof -
  define kx where "kx = \<lfloor>log 2 x\<rfloor>"
  define ky where "ky = \<lfloor>log 2 y\<rfloor>"
  from assms have pos: "0 < x" "0 < y" by simp_all
  have bx: "2 powi kx \<le> x" "x < 2 powi (kx + 1)"
    unfolding kx_def using floor_log2_bounds [OF pos(1)] by simp_all
  have "by": "2 powi ky \<le> y" "y < 2 powi (ky + 1)"
    unfolding ky_def using floor_log2_bounds [OF pos(2)] by simp_all
  have "0 \<le> log 2 x" using assms(1) by simp
  then have kx0: "0 \<le> kx" unfolding kx_def by simp
  have "log 2 x \<le> log 2 y" using assms pos by simp
  then have kxy: "kx \<le> ky" unfolding kx_def ky_def by (rule floor_mono)
  from kx0 kxy have n: "- 1022 \<le> kx" "- 1022 \<le> ky" by simp_all
  show ?thesis
  proof (cases "kx = ky")
    case True
    have "x / 2 powi (kx - 52) \<le> y / 2 powi (kx - 52)"
      using assms(2) by (simp add: divide_right_mono)
    then have "roundHalfEven (x / 2 powi (kx - 52)) \<le> roundHalfEven (y / 2 powi (kx - 52))"
      by (rule roundHalfEven_mono)
    then have "of_int (roundHalfEven (x / 2 powi (kx - 52))) * 2 powi (kx - 52)
        \<le> of_int (roundHalfEven (y / 2 powi (kx - 52))) * (2::real) powi (kx - 52)"
      by (simp add: mult_right_mono)
    then show ?thesis
      using toDouble_binade(3) [OF bx n(1)] toDouble_binade(3) [OF "by" n(2)] True by simp
  next
    case False
    with kxy have "kx + 1 \<le> ky" by simp
    then have "(2::real) powi (kx + 1) \<le> 2 powi ky"
      by (simp add: power_int_increasing)
    with toDouble_binade(2) [OF bx n(1)] toDouble_binade(1) [OF "by" n(2)]
    show ?thesis by linarith
  qed
qed

lemma toDouble_0 [simp]: "toDouble 0 = 0"
  by (simp add: toDouble_def)

lemma toDouble_nonneg: "0 \<le> x \<Longrightarrow> 0 \<le> toDouble x"
proof -
  assume "0 \<le> x"
  then have "0 \<le> x / 2 powi (binaryExponent x - 52)" by simp
  then have "0 \<le> roundHalfEven (x / 2 powi (binaryExponent x - 52))"
    using roundHalfEven_mono [of 0 "x / 2 powi (binaryExponent x - 52)"] by simp
  then show ?thesis
    by (simp add: toDouble_def Let_def)
qed

lemma toDouble_of_nat_mono:
  assumes "m \<le> n"
  shows "toDouble (real m) \<le> toDouble (real n)"
proof (cases "m = 0")
  case True
  then show ?thesis by (simp add: toDouble_nonneg)
next
  case False
  then have "1 \<le> real m" by simp
  moreover from assms have "real m \<le> real n" by simp
  ultimately show ?thesis by (rule toDouble_mono_ge1)
qed


lemma toDouble_eval:
  assumes "2 powi k \<le> \<bar>x\<bar>" and "\<bar>x\<bar> < 2 powi (k + 1)" and "- 1022 \<le> k"
  shows "toDouble x = of_int (roundHalfEven (x / 2 powi (k - 52))) * 2 powi (k - 52)"
proof -
  have "0 < \<bar>x\<bar>"
    using assms(1) by (rule less_le_trans [OF zero_less_power_int, rotated]) simp
  then have "x \<noteq> 0" by simp
  moreover have "binaryExponent x = k"
    using assms by (rule binaryExponent_eq)
  ultimately show ?thesis
    by (simp add: toDouble_def Let_def)
qed

lemma toDouble_eval_subnormal:
  assumes "x \<noteq> 0" and "\<bar>x\<bar> < 2 powi (- 1022)"
  shows "toDouble x = of_int (roundHalfEven (x / 2 powi (- 1074))) * 2 powi (- 1074)"
proof -
  from assms(1) have pos: "0 < \<bar>x\<bar>" by simp
  have "\<lfloor>log 2 \<bar>x\<bar>\<rfloor> \<le> - 1022"
  proof (rule ccontr)
    assume "\<not> \<lfloor>log 2 \<bar>x\<bar>\<rfloor> \<le> - 1022"
    then have "- 1022 \<le> \<lfloor>log 2 \<bar>x\<bar>\<rfloor>" by simp
    then have "(2::real) powi (- 1022) \<le> 2 powi \<lfloor>log 2 \<bar>x\<bar>\<rfloor>"
      by (rule power_int_increasing) simp
    also have "\<dots> \<le> \<bar>x\<bar>"
      using floor_log2_bounds(1) [OF pos] .
    finally show False using assms(2) by simp
  qed
  then have "binaryExponent x = - 1022"
    by (simp add: binaryExponent_def)
  with assms(1) show ?thesis
    by (simp add: toDouble_def Let_def)
qed

lemma toDouble_of_nat:
  assumes "n < 2 ^ 53"
  shows "toDouble (real n) = real n"
proof (cases "n = 0")
  case True
  then show ?thesis by simp
next
  case False
  then have pos: "0 < real n" by simp
  define k where "k = \<lfloor>log 2 (real n)\<rfloor>"
  have b: "2 powi k \<le> real n" "real n < 2 powi (k + 1)"
    unfolding k_def using floor_log2_bounds [OF pos] by simp_all
  from False have "0 \<le> log 2 (real n)" by simp
  then have k0: "0 \<le> k" unfolding k_def by simp
  from assms have "real n < 2 ^ 53"
    using of_nat_less_iff [where 'a = real, of n "2 ^ 53"] by simp
  with b(1) have lt: "(2::real) powi k < 2 powi 53"
    by simp
  have k52: "k \<le> 52"
  proof (rule ccontr)
    assume "\<not> k \<le> 52"
    then have "53 \<le> k" by simp
    then have "(2::real) powi 53 \<le> 2 powi k"
      by (rule power_int_increasing) simp
    with lt show False by simp
  qed
  define j where "j = nat (52 - k)"
  have q: "(2::real) powi (k - 52) = 1 / 2 ^ j"
    using k52 by (simp add: j_def power_int_minus_divide [of 2 "52 - k", simplified] power_int_nonneg_exp)
  have "real n / 2 powi (k - 52) = of_int (int n * 2 ^ j)"
    by (simp add: q)
  then have r: "roundHalfEven (real n / 2 powi (k - 52)) = int n * 2 ^ j"
    by (simp only: roundHalfEven_of_int)
  have "toDouble (real n) = of_int (roundHalfEven (real n / 2 powi (k - 52))) * 2 powi (k - 52)"
    using b k0 by (intro toDouble_eval) simp_all
  then have "toDouble (real n) = of_int (int n * 2 ^ j) * 2 powi (k - 52)"
    by (simp only: r)
  then have "toDouble (real n) = of_int (int n * 2 ^ j) * (1 / 2 ^ j)"
    by (simp only: q)
  then show ?thesis
    by simp
qed

lemma toDouble_numeral:
  "numeral w < (2::nat) ^ 53 \<Longrightarrow> toDouble (numeral w) = numeral w"
  using toDouble_of_nat [of "numeral w"] by simp



lemma bigintToNumber_mono: "m \<le> n \<Longrightarrow> bigintToNumber m \<le> bigintToNumber n"
  unfolding bigintToNumber_def by (rule toDouble_of_nat_mono)

lemma bigintToNumber_exact: "n < 2 ^ 53 \<Longrightarrow> bigintToNumber n = real n"
  unfolding bigintToNumber_def by (rule toDouble_of_nat)

lemma bigintToNumber_numeral:
  "numeral w < (2::nat) ^ 53 \<Longrightarrow> bigintToNumber (numeral w) = numeral w"
  using bigintToNumber_exact [of "numeral w"] by simp

lemma bigintToNumber_0 [simp]: "bigintToNumber 0 = 0"
  by (simp add: bigintToNumber_def)

text \<open>The rounding at work: \<open>Number(2n ** 53n + 1n)\<close> is \<open>2 ** 53\<close>; the price \<open>4294.35\<close> (the
  number \<open>2360843879369933 / 2^39\<close>) times \<open>100\<close> is \<open>429435.00000000006\<close>; \<open>530 / 100\<close> is the
  number \<open>5.3\<close> and \<open>530 / 300\<close> is \<open>1.7666666666666666\<close>.\<close>

lemma bigintToNumber_rounds: "bigintToNumber (2 ^ 53 + 1) = 2 ^ 53"
  unfolding bigintToNumber_def
  by (subst toDouble_eval [where k = 53]) (simp_all add: roundHalfEven_def Let_def)

lemma jsMultiply_rounds:
  "jsMultiply (2360843879369933 / 549755813888) 100 = 7377637123031041 / 17179869184"
  unfolding jsMultiply_def
  by (subst toDouble_eval [where k = 18]) (simp_all add: roundHalfEven_def Let_def)


subsection \<open>Dictionaries\<close>

lemma keys_replaceProp: "map fst (replaceProp k v d) = map fst d"
  by (induction d) auto

lemma set_replaceProp: "fst ` set (replaceProp k v d) = fst ` set d"
  using keys_replaceProp [of k v d] by (metis list.set_map)

lemma set_keys_insertIndex: "fst ` set (insertIndex k v d) = insert k (fst ` set d)"
  by (induction k v d rule: insertIndex.induct) (simp_all add: insert_commute)

lemma distinct_insertIndex:
  "k \<notin> fst ` set d \<Longrightarrow> distinct (map fst d) \<Longrightarrow> distinct (map fst (insertIndex k v d))"
  by (induction k v d rule: insertIndex.induct) (simp_all add: set_keys_insertIndex)

lemma getProp_None_iff: "getProp d k = None \<longleftrightarrow> k \<notin> fst ` set d"
  by (simp add: getProp_def map_of_eq_None_iff)

lemma set_keys_setProp: "fst ` set (setProp k v d) = insert k (fst ` set d)"
  by (auto simp: setProp_def set_replaceProp set_keys_insertIndex getProp_None_iff)

lemma distinct_setProp:
  "distinct (map fst d) \<Longrightarrow> distinct (map fst (setProp k v d))"
  by (auto simp: setProp_def keys_replaceProp distinct_insertIndex getProp_None_iff)

lemma map_of_replaceProp:
  "map_of d k \<noteq> None \<Longrightarrow> map_of (replaceProp k v d) k' = (if k' = k then Some v else map_of d k')"
  by (induction k v d rule: replaceProp.induct) (simp_all split: if_splits)

lemma map_of_insertIndex:
  "map_of (insertIndex k v d) k' = (if k' = k then Some v else map_of d k')"
  by (induction k v d rule: insertIndex.induct) auto

lemma map_of_snoc:
  "map_of d k = None \<Longrightarrow> map_of (d @ [(k, v)]) k' = (if k' = k then Some v else map_of d k')"
  by (simp add: map_add_def split: option.splits)

lemma getProp_setProp: "getProp (setProp k v d) k' = (if k' = k then Some v else getProp d k')"
  by (simp add: getProp_def setProp_def map_of_replaceProp map_of_insertIndex map_of_snoc
      del: map_of_append)


lemma fold_fold_concat: "fold (\<lambda>xs s. fold f xs s) xss s = fold f (concat xss) s"
  by (induction xss arbitrary: s) simp_all

lemma mergeTimestampValues_fold:
  "mergeTimestampValues values = fold addEntry (allEntries values) []"
  by (simp add: mergeTimestampValues_def allEntries_def fold_fold_concat)

lemma set_keys_addEntry: "fst ` set (addEntry e d) = insert (fst e) (fst ` set d)"
  by (cases e) (simp add: addEntry_def set_keys_setProp)

lemma distinct_addEntry: "distinct (map fst d) \<Longrightarrow> distinct (map fst (addEntry e d))"
  by (cases e) (simp add: addEntry_def distinct_setProp)

lemma getProp_addEntry:
  "getProp (addEntry e d) t =
     (if t = fst e then Some ((case getProp d t of None \<Rightarrow> [] | Some m \<Rightarrow> m) @ snd e)
      else getProp d t)"
  by (cases e) (simp add: addEntry_def getProp_setProp)

lemma set_keys_fold_addEntry:
  "fst ` set (fold addEntry es d) = fst ` set d \<union> fst ` set es"
  by (induction es arbitrary: d) (simp_all add: set_keys_addEntry)

lemma distinct_fold_addEntry:
  "distinct (map fst d) \<Longrightarrow> distinct (map fst (fold addEntry es d))"
  by (induction es arbitrary: d) (simp_all add: distinct_addEntry)

lemma recordsAt_Nil [simp]: "recordsAt t [] = []"
  by (simp add: recordsAt_def)

lemma recordsAt_Cons:
  "recordsAt t (e # es) = (if fst e = t then snd e @ recordsAt t es else recordsAt t es)"
  by (simp add: recordsAt_def)

lemma recordsAt_absent: "t \<notin> fst ` set es \<Longrightarrow> recordsAt t es = []"
  by (induction es) (auto simp: recordsAt_Cons)

lemma getProp_Nil [simp]: "getProp [] t = None"
  by (simp add: getProp_def)

lemma getProp_fold_addEntry:
  "getProp (fold addEntry es d) t =
     (if t \<in> fst ` set es
      then Some ((case getProp d t of None \<Rightarrow> [] | Some m \<Rightarrow> m) @ recordsAt t es)
      else getProp d t)"
proof (induction es arbitrary: d)
  case Nil
  then show ?case by simp
next
  case (Cons e es)
  have step: "getProp (fold addEntry (e # es) d) t =
      (if t \<in> fst ` set es
       then Some ((case getProp (addEntry e d) t of None \<Rightarrow> [] | Some m \<Rightarrow> m) @ recordsAt t es)
       else getProp (addEntry e d) t)"
    using Cons.IH [of "addEntry e d"] by simp
  show ?case
  proof (cases "t = fst e")
    case True
    then show ?thesis
      unfolding step by (simp add: getProp_addEntry recordsAt_Cons recordsAt_absent)
  next
    case False
    then show ?thesis
      unfolding step by (simp add: getProp_addEntry recordsAt_Cons)
  qed
qed

lemma set_keys_merge: "fst ` set (mergeTimestampValues values) = timestampsOf values"
  by (simp add: mergeTimestampValues_fold set_keys_fold_addEntry timestampsOf_def)

lemma distinct_keys_merge: "distinct (map fst (mergeTimestampValues values))"
  by (simp add: mergeTimestampValues_fold distinct_fold_addEntry)

lemma getProp_merge:
  "getProp (mergeTimestampValues values) t =
     (if t \<in> timestampsOf values then Some (recordsAt t (allEntries values)) else None)"
  by (simp add: mergeTimestampValues_fold getProp_fold_addEntry timestampsOf_def)

lemma merge_entry:
  assumes "(t, rs) \<in> set (mergeTimestampValues values)"
  shows "rs = recordsAt t (allEntries values)"
proof -
  from assms have "map_of (mergeTimestampValues values) t = Some rs"
    by (simp add: distinct_keys_merge)
  moreover from assms have "t \<in> timestampsOf values"
    using set_keys_merge [of "values"] by force
  ultimately show ?thesis
    using getProp_merge [of "values" t] by (simp add: getProp_def)
qed


lemma mapThrowing_Inr_iff:
  "mapThrowing f xs = Inr ys \<longleftrightarrow> map f xs = map Inr ys"
proof (induction xs arbitrary: ys)
  case Nil
  then show ?case by auto
next
  case (Cons x xs)
  show ?case
  proof (cases "f x")
    case (Inl e)
    then show ?thesis by auto
  next
    case fx: (Inr y)
    show ?thesis
    proof (cases "mapThrowing f xs")
      case (Inl e)
      with Cons.IH have "\<And>zs. map f xs \<noteq> map Inr zs" by auto 
      with fx Inl show ?thesis by (cases ys) auto
    next
      case (Inr zs)
      with Cons.IH [of zs] have "map f xs = map Inr zs" by simp
      with fx Inr show ?thesis by (cases ys) (auto simp: inj_map_eq_map)
    qed
  qed
qed

lemma mapThrowing_Inl:
  "mapThrowing f xs = Inl e \<Longrightarrow> \<exists>x \<in> set xs. f x = Inl e"
  by (induction xs) (auto split: sum.splits)

lemma mapThrowing_total:
  "(\<And>x. x \<in> set xs \<Longrightarrow> f x = Inr (g x)) \<Longrightarrow> mapThrowing f xs = Inr (map g xs)"
  by (simp add: mapThrowing_Inr_iff)

lemma chartPoint_eq:
  "chartPoint ethPrices exclude e =
     (if hasEthPrice ethPrices (fst e) then Inr (pointAt ethPrices exclude e)
      else Inl (NoEthPrice (fst e)))"
  by (cases e) (simp add: chartPoint_def hasEthPrice_def pointAt_def Let_def split: option.splits)

lemma getChartData_Inr:
  assumes "\<And>t. t \<in> timestampsOf values \<Longrightarrow> hasEthPrice ethPrices t"
  shows "getChartData values ethPrices exclude =
    Inr (map (pointAt ethPrices exclude) (mergeTimestampValues values))"
  unfolding getChartData_def
proof (rule mapThrowing_total)
  fix e assume "e \<in> set (mergeTimestampValues values)"
  then have "fst e \<in> timestampsOf values"
    using set_keys_merge [of "values"] by blast
  then show "chartPoint ethPrices exclude e = Inr (pointAt ethPrices exclude e)"
    by (simp add: chartPoint_eq assms)
qed

lemma getChartData_Inl:
  assumes "getChartData values ethPrices exclude = Inl err"
  shows "\<exists>t \<in> timestampsOf values. \<not> hasEthPrice ethPrices t \<and> err = NoEthPrice t"
proof -
  from assms obtain e where e: "e \<in> set (mergeTimestampValues values)"
    and "chartPoint ethPrices exclude e = Inl err"
    unfolding getChartData_def by (blast dest: mapThrowing_Inl)
  then have "\<not> hasEthPrice ethPrices (fst e) \<and> err = NoEthPrice (fst e)"
    by (auto simp: chartPoint_eq split: if_splits)
  moreover from e have "fst e \<in> timestampsOf values"
    using set_keys_merge [of "values"] by blast
  ultimately show ?thesis by blast
qed

lemma getChartData_Inr_D:
  assumes "getChartData values ethPrices exclude = Inr points"
  shows "\<forall>t \<in> timestampsOf values. hasEthPrice ethPrices t"
    and "points = map (pointAt ethPrices exclude) (mergeTimestampValues values)"
proof -
  from assms have eq: "map (chartPoint ethPrices exclude) (mergeTimestampValues values) = map Inr points"
    by (simp add: getChartData_def mapThrowing_Inr_iff)
  show all: "\<forall>t \<in> timestampsOf values. hasEthPrice ethPrices t"
  proof
    fix t assume "t \<in> timestampsOf values"
    then have "t \<in> fst ` set (mergeTimestampValues values)"
      by (simp only: set_keys_merge)
    then obtain e where e: "e \<in> set (mergeTimestampValues values)" and t: "t = fst e"
      by (rule imageE)
    from e eq have "chartPoint ethPrices exclude e \<in> set (map Inr points)"
      by (metis image_eqI list.set_map)
    then show "hasEthPrice ethPrices t"
      by (auto simp: chartPoint_eq t split: if_splits)
  qed
  then show "points = map (pointAt ethPrices exclude) (mergeTimestampValues values)"
    using assms getChartData_Inr [of "values" ethPrices exclude] by simp
qed

lemma fst_pointAt: "fst (pointAt ethPrices exclude e) = int (fst e)"
  by (simp add: pointAt_def Let_def)

lemma timestamps_points:
  "map fst (map (pointAt ethPrices exclude) d) = map int (map fst d)"
  by (simp add: fst_pointAt)

subsection \<open>The latest total\<close>

lemma arrayAt_last: "arrayAt xs (- 1) = (if xs = [] then None else Some (last xs))"
proof (cases "xs = []")
  case True
  then show ?thesis by (simp add: arrayAt_def)
next
  case False
  then have "0 < length xs" by simp
  then have "nat (int (length xs) - 1) = length xs - 1" by simp
  with False show ?thesis
    by (simp add: arrayAt_def Let_def last_conv_nth)
qed

lemma getChartData_no_points_iff:
  "getChartData values ethPrices exclude = Inr [] \<longleftrightarrow> timestampsOf values = {}"
proof
  assume "getChartData values ethPrices exclude = Inr []"
  then have "[] = map (pointAt ethPrices exclude) (mergeTimestampValues values)"
    by (rule getChartData_Inr_D(2))
  then have "mergeTimestampValues values = []" by simp
  then show "timestampsOf values = {}"
    using set_keys_merge [of "values"] by simp
next
  assume e: "timestampsOf values = {}"
  then have "fst ` set (mergeTimestampValues values) = {}"
    by (simp only: set_keys_merge)
  then have "mergeTimestampValues values = []" by simp
  moreover have "getChartData values ethPrices exclude =
      Inr (map (pointAt ethPrices exclude) (mergeTimestampValues values))"
    by (rule getChartData_Inr) (simp add: e)
  ultimately show "getChartData values ethPrices exclude = Inr []" by simp
qed

lemma getChartData_not_NoLatestValue:
  "getChartData values ethPrices exclude \<noteq> Inl NoLatestValue"
  using getChartData_Inl [of "values" ethPrices exclude NoLatestValue] by auto

lemma latestTotal_Inl_iff:
  "latestTotal points = Inl err \<longleftrightarrow> points = [] \<and> err = NoLatestValue"
  by (auto simp: latestTotal_def latestValue_def arrayAt_last Let_def split: prod.splits)


subsection \<open>The chart points\<close>

lemma hasEthPrice_iff: "hasEthPrice ethPrices t \<longleftrightarrow> (\<exists>p. ethPrices t = Some p \<and> p \<noteq> 0)"
  by (simp add: hasEthPrice_def split: option.splits)

lemma pointAt_merge:
  assumes "e \<in> set (mergeTimestampValues values)"
  shows "pointAt ethPrices exclude e =
    (int (fst e), bigintToNumber (native (summedAt values exclude (fst e))),
     bigintToNumber (canonical (summedAt values exclude (fst e))),
     bigintToNumber (external (summedAt values exclude (fst e))),
     jsMultiply (the (ethPrices (fst e))) 100)"
proof -
  from assms have "snd e = recordsAt (fst e) (allEntries values)"
    using merge_entry [of "fst e" "snd e" "values"] by simp
  then show ?thesis
    by (simp add: pointAt_def summedAt_def Let_def)
qed

lemma getChartData_points:
  assumes "getChartData values ethPrices exclude = Inr points"
  shows "points =
    map (\<lambda>t. (int t, bigintToNumber (native (summedAt values exclude t)),
               bigintToNumber (canonical (summedAt values exclude t)),
               bigintToNumber (external (summedAt values exclude t)),
               jsMultiply (the (ethPrices t)) 100))
      (map fst (mergeTimestampValues values))"
proof -
  from assms have "points = map (pointAt ethPrices exclude) (mergeTimestampValues values)"
    by (rule getChartData_Inr_D)
  then show ?thesis
    by (simp add: pointAt_merge)
qed

lemma sumSource_mono:
  "(\<And>r. keep r \<Longrightarrow> keep' r) \<Longrightarrow> sumSource keep records \<le> sumSource keep' records"
  unfolding sumSource_def by (induction records) auto

lemma summedAt_exclude:
  "native (summedAt values True t) \<le> native (summedAt values False t)"
  "canonical (summedAt values True t) \<le> canonical (summedAt values False t)"
  "external (summedAt values True t) = external (summedAt values False t)"
  by (simp_all add: summedAt_def sumValuesPerSource_def) (rule sumSource_mono, simp)+

lemma getChartData_succeeds_whatever_exclude:
  "getChartData values ethPrices exclude = Inr points \<Longrightarrow>
   getChartData values ethPrices exclude' =
     Inr (map (pointAt ethPrices exclude') (mergeTimestampValues values))"
  by (rule getChartData_Inr) (blast dest: getChartData_Inr_D(1))

subsection \<open>The order of the keys of the merged map\<close>

lemma keys_insertIndex_last:
  "isArrayIndex k \<Longrightarrow> \<forall>k' \<in> fst ` set d. k' < k \<Longrightarrow>
   map fst (insertIndex k v d) = map fst d @ [k]"
proof (induction k v d rule: insertIndex.induct)
  case (1 k v)
  then show ?case by simp
next
  case (2 k v k' v' d)
  from "2.prems" have lt: "k' < k" by simp
  with "2.prems"(1) have "isArrayIndex k'"
    by (simp add: isArrayIndex_def)
  with lt "2.IH" "2.prems" show ?case by simp
qed

lemma keys_setProp_last:
  "\<forall>k' \<in> fst ` set d. k' < k \<Longrightarrow> map fst (setProp k v d) = map fst d @ [k]"
proof -
  assume a: "\<forall>k' \<in> fst ` set d. k' < k"
  then have "k \<notin> fst ` set d" by auto
  then have "getProp d k = None" by (simp add: getProp_None_iff)
  with a show ?thesis
    by (simp add: setProp_def keys_insertIndex_last)
qed

lemma keys_setProp_present:
  "k \<in> fst ` set d \<Longrightarrow> map fst (setProp k v d) = map fst d"
  by (simp add: setProp_def getProp_None_iff keys_replaceProp)

lemma keys_addEntry_present:
  "fst e \<in> fst ` set d \<Longrightarrow> map fst (addEntry e d) = map fst d"
  by (cases e) (simp add: addEntry_def keys_setProp_present)

lemma keys_addEntry_last:
  "\<forall>k' \<in> fst ` set d. k' < fst e \<Longrightarrow> map fst (addEntry e d) = map fst d @ [fst e]"
  by (cases e) (simp add: addEntry_def keys_setProp_last)

lemma fold_created_prefix: "\<exists>zs. fold created ks acc = acc @ zs"
proof (induction ks arbitrary: acc)
  case Nil
  then show ?case by simp
next
  case (Cons k ks)
  from Cons.IH [of "created k acc"]
  obtain zs where zs: "fold created ks (created k acc) = created k acc @ zs"
    by blast
  have "created k acc = acc @ [] \<or> created k acc = acc @ [k]"
    by (simp add: created_def)
  then obtain ys where ys: "created k acc = acc @ ys"
    by blast
  have "fold created (k # ks) acc = acc @ (ys @ zs)"
    using zs by (simp add: ys)
  then show ?case by blast
qed

lemma keys_fold_addEntry_chronological:
  "sorted_wrt (<) (fold created (map fst es) (map fst d)) \<Longrightarrow>
   map fst (fold addEntry es d) = fold created (map fst es) (map fst d)"
proof (induction es arbitrary: d)
  case Nil
  then show ?case by simp
next
  case (Cons e es)
  have step: "map fst (addEntry e d) = created (fst e) (map fst d)"
  proof (cases "fst e \<in> fst ` set d")
    case True
    then show ?thesis by (simp add: keys_addEntry_present created_def)
  next
    case False
    from False have new: "created (fst e) (map fst d) = map fst d @ [fst e]"
      by (simp add: created_def)
    obtain zs where "fold created (map fst es) (map fst d @ [fst e]) = (map fst d @ [fst e]) @ zs"
      using fold_created_prefix by blast
    moreover from Cons.prems
    have "sorted_wrt (<) (fold created (map fst es) (map fst d @ [fst e]))"
      by (simp add: new)
    ultimately have "sorted_wrt (<) ((map fst d @ [fst e]) @ zs)"
      by simp
    then have "\<forall>k' \<in> fst ` set d. k' < fst e"
      by (auto simp: sorted_wrt_append)
    with False show ?thesis by (simp add: keys_addEntry_last created_def)
  qed
  with Cons.prems have "sorted_wrt (<) (fold created (map fst es) (map fst (addEntry e d)))"
    by simp
  then have "map fst (fold addEntry es (addEntry e d)) =
      fold created (map fst es) (map fst (addEntry e d))"
    by (rule Cons.IH)
  with step show ?case by simp
qed

lemma keys_merge_chronological:
  "sorted_wrt (<) (creationOrder values) \<Longrightarrow>
   map fst (mergeTimestampValues values) = creationOrder values"
  using keys_fold_addEntry_chronological [of "allEntries values" "[]"]
  by (simp add: mergeTimestampValues_fold creationOrder_def)

lemma sorted_insertIndex:
  "k \<notin> fst ` set d \<Longrightarrow> \<forall>k' \<in> fst ` set d. isArrayIndex k' \<Longrightarrow>
   sorted_wrt (<) (map fst d) \<Longrightarrow> sorted_wrt (<) (map fst (insertIndex k v d))"
proof (induction k v d rule: insertIndex.induct)
  case (1 k v)
  then show ?case by simp
next
  case (2 k v k' v' d)
  show ?case
  proof (cases "k' < k")
    case True
    with "2.prems" "2.IH" show ?thesis
      by (auto simp: set_keys_insertIndex)
  next
    case False
    with "2.prems" have "k < k'" by auto
    with "2.prems" False show ?thesis by auto
  qed
qed

lemma sorted_setProp:
  "isArrayIndex k \<Longrightarrow> \<forall>k' \<in> fst ` set d. isArrayIndex k' \<Longrightarrow>
   sorted_wrt (<) (map fst d) \<Longrightarrow> sorted_wrt (<) (map fst (setProp k v d))"
  by (simp add: setProp_def keys_replaceProp getProp_None_iff sorted_insertIndex)

lemma sorted_fold_addEntry:
  "\<forall>k \<in> fst ` set d \<union> fst ` set es. isArrayIndex k \<Longrightarrow>
   sorted_wrt (<) (map fst d) \<Longrightarrow> sorted_wrt (<) (map fst (fold addEntry es d))"
proof (induction es arbitrary: d)
  case Nil
  then show ?case by simp
next
  case (Cons e es)
  have "sorted_wrt (<) (map fst (addEntry e d))"
    using Cons.prems by (cases e) (simp add: addEntry_def sorted_setProp)
  moreover have "\<forall>k \<in> fst ` set (addEntry e d) \<union> fst ` set es. isArrayIndex k"
    using Cons.prems by (auto simp: set_keys_addEntry)
  ultimately show ?case using Cons.IH by simp
qed

lemma sorted_keys_merge:
  "\<forall>t \<in> timestampsOf values. isArrayIndex t \<Longrightarrow>
   sorted_wrt (<) (map fst (mergeTimestampValues values))"
  using sorted_fold_addEntry [of "[]" "allEntries values"]
  by (simp add: mergeTimestampValues_fold timestampsOf_def)

lemma sorted_wrt_map_int:
  "sorted_wrt (<) (map int ks) = sorted_wrt (<) ks"
  by (simp add: sorted_wrt_map)

text \<open>Timestamps below \<open>2^32 - 1\<close> are array indices: the chart is ascending even when the
  timestamps were not inserted in ascending order.\<close>

lemma chart_ascending_after_unordered_insertion:
  "creationOrder [(''P1'', [(200, [])]), (''P2'', [(100, [])])] = [200, 100]
   \<and> getChartData [(''P1'', [(200, [])]), (''P2'', [(100, [])])] [100 \<mapsto> 2000, 200 \<mapsto> 1900] False
       = Inr [(100, 0, 0, 0, 200000), (200, 0, 0, 0, 190000)]"
  by (simp add: creationOrder_def allEntries_def created_def getChartData_def
      mergeTimestampValues_def addEntry_def setProp_def getProp_def isArrayIndex_def
      chartPoint_def sumValuesPerSource_def sumSource_def jsMultiply_def toDouble_numeral)

subsection \<open>Reordering the projects\<close>

lemma mset_concat_cong: "mset xss = mset yss \<Longrightarrow> mset (concat xss) = mset (concat yss)"
proof -
  assume eq: "mset xss = mset yss"
  have "mset (concat zss) = \<Sum>\<^sub># (image_mset mset (mset zss))" for zss :: "'a list list"
    by (simp add: mset_concat flip: sum_mset_sum_list)
  with eq show ?thesis by simp
qed

lemma mset_allEntries_cong:
  "mset values' = mset values \<Longrightarrow> mset (allEntries values') = mset (allEntries values)"
  unfolding allEntries_def
  by (rule mset_concat_cong) simp

lemma mset_recordsAt_cong:
  "mset es' = mset es \<Longrightarrow> mset (recordsAt t es') = mset (recordsAt t es)"
  unfolding recordsAt_def
  by (rule mset_concat_cong) simp

lemma sumSource_mset:
  "sumSource keep records = \<Sum>\<^sub># (image_mset val (filter_mset keep (mset records)))"
  by (simp add: sumSource_def flip: sum_mset_sum_list)

lemma sumSource_cong:
  "mset records' = mset records \<Longrightarrow> sumSource keep records' = sumSource keep records"
  by (simp add: sumSource_mset)

lemma sumValuesPerSource_cong:
  "mset records' = mset records \<Longrightarrow>
   sumValuesPerSource records' options = sumValuesPerSource records options"
  by (simp only: sumValuesPerSource_def sumSource_cong [of records' records])

lemma summedAt_cong:
  "mset values' = mset values \<Longrightarrow> summedAt values' exclude t = summedAt values exclude t"
  unfolding summedAt_def
  by (intro sumValuesPerSource_cong mset_recordsAt_cong mset_allEntries_cong)

lemma timestampsOf_cong:
  "mset values' = mset values \<Longrightarrow> timestampsOf values' = timestampsOf values"
proof -
  assume "mset values' = mset values"
  then have "mset (allEntries values') = mset (allEntries values)"
    by (rule mset_allEntries_cong)
  then have "set (allEntries values') = set (allEntries values)"
    by (rule mset_eq_setD)
  then show ?thesis by (simp add: timestampsOf_def)
qed

lemma mset_keys_merge_cong:
  assumes "mset values' = mset values"
  shows "mset (map fst (mergeTimestampValues values')) = mset (map fst (mergeTimestampValues values))"
proof -
  have "set (map fst (mergeTimestampValues values')) = set (map fst (mergeTimestampValues values))"
    using timestampsOf_cong [OF assms] by (simp add: set_keys_merge)
  then show ?thesis
    using set_eq_iff_mset_eq_distinct [OF distinct_keys_merge distinct_keys_merge] by blast
qed

subsection \<open>The mock chart\<close>

lemma toStartOf_Hourly: "toStartOf t StartOfHour mod 3600 = 0"
  by (simp add: toStartOf_def HOUR_def minus_mod_eq_mult_div)

lemma generateTimestamps_Hourly:
  "from \<le> to \<Longrightarrow> m = nat ((to - from) div 3600) + 1 \<Longrightarrow>
   generateTimestamps (from, to) Hourly = map (\<lambda>i. from + int i * 3600) [0 ..< m]"
  by (simp add: generateTimestamps_def HOUR_def Let_def)

lemma hourly_buckets:
  assumes "f mod 3600 = (0 :: int)" and "0 < m"
  shows "(\<lambda>i. f + int i * 3600) ` {0 ..< m} =
    {t. f \<le> t \<and> t \<le> f + (int m - 1) * 3600 \<and> t mod 3600 = 0}"
proof (intro equalityI subsetI)
  fix t assume "t \<in> (\<lambda>i. f + int i * 3600) ` {0 ..< m}"
  then obtain i where i: "i < m" and t: "t = f + int i * 3600" by auto
  from i have "int i \<le> int m - 1" by linarith
  then have "int i * 3600 \<le> (int m - 1) * 3600" by simp
  moreover have "(f + int i * 3600) mod 3600 = 0"
    using assms(1) by (simp only: mod_mult_self1)
  ultimately show "t \<in> {t. f \<le> t \<and> t \<le> f + (int m - 1) * 3600 \<and> t mod 3600 = 0}"
    using t by simp
next
  fix t assume "t \<in> {t. f \<le> t \<and> t \<le> f + (int m - 1) * 3600 \<and> t mod 3600 = 0}"
  then have b: "f \<le> t" "t \<le> f + (int m - 1) * 3600" and m: "t mod 3600 = 0" by auto
  define k where "k = (t - f) div 3600"
  have "(t - f) mod 3600 = (t mod 3600 - f mod 3600) mod 3600"
    by (simp only: mod_diff_eq)
  also have "\<dots> = 0"
    unfolding assms(1) m by simp
  finally have "(t - f) mod 3600 = 0" .
  then have "3600 dvd (t - f)"
    by (rule mod_0_imp_dvd)
  then have eq: "t - f = k * 3600"
    unfolding k_def by (simp only: dvd_div_mult_self)
  from eq b have "0 \<le> k * 3600" and "k * 3600 \<le> (int m - 1) * 3600"
    by linarith+
  then have "0 \<le> k" and "k \<le> int m - 1"
    by simp_all
  with eq have k: "0 \<le> k" "k < int m" "t = f + k * 3600"
    by linarith+
  then have "nat k \<in> {0 ..< m}" and "t = f + int (nat k) * 3600" by auto
  then show "t \<in> (\<lambda>i. f + int i * 3600) ` {0 ..< m}" by blast
qed

lemma mock_chart_timestamps:
  "chart (getMockTvlChartData getRangeConfig now range') =
     map (\<lambda>timestamp. (timestamp, 3000, 2000, 1000, 1200))
       (generateTimestamps
          (case days (getRangeConfig range') of
             DayCount d \<Rightarrow>
             addDays (toStartOf now
               (if resolution (getRangeConfig range') = Hourly then StartOfHour else StartOfDay))
               (- int d)
           | Infinity \<Rightarrow> 1573776000,
           toStartOf now
             (if resolution (getRangeConfig range') = Hourly then StartOfHour else StartOfDay))
          (resolution (getRangeConfig range')))"
  by (cases "resolution (getRangeConfig range')"; cases "days (getRangeConfig range')")
    (simp_all add: getMockTvlChartData_def Let_def)

lemma mock_chart_magnitudes:
  "map snd (chart (getMockTvlChartData getRangeConfig now range')) =
     replicate (length (chart (getMockTvlChartData getRangeConfig now range'))) (3000, 2000, 1000, 1200)"
  unfolding mock_chart_timestamps by (simp add: comp_def map_replicate_const)

section \<open>The claims\<close>

text \<open>
  C1. Whatever the project-value map, \<open>getChartData\<close> returns exactly one chart point per
  distinct timestamp that appears across all projects: with \<open>N\<close> distinct timestamps the
  chart has \<open>N\<close> points, their timestamps are pairwise distinct and are exactly the
  timestamps of the input; the empty map gives the empty chart. The chart is returned
  when every timestamp has a price the assertion accepts.
\<close>

theorem getChartData_one_point_per_timestamp:
  assumes "\<forall>t \<in> timestampsOf values. hasEthPrice ethPrices t"
  shows "(\<exists>points. getChartData values ethPrices exclude = Inr points
            \<and> length points = card (timestampsOf values)
            \<and> distinct (map fst points)
            \<and> set (map fst points) = int ` timestampsOf values)
         \<and> getChartData [] ethPrices exclude = Inr []"
proof -
  let ?d = "mergeTimestampValues values"
  let ?points = "map (pointAt ethPrices exclude) ?d"
  have r: "getChartData values ethPrices exclude = Inr ?points"
    using assms by (simp add: getChartData_Inr)
  have "length ?points = length (map fst ?d)" by simp
  also have "\<dots> = card (set (map fst ?d))"
    using distinct_keys_merge [of "values"] by (simp only: distinct_card)
  also have "\<dots> = card (timestampsOf values)"
    by (simp add: set_keys_merge)
  finally have len: "length ?points = card (timestampsOf values)" .
  have dist: "distinct (map fst ?points)"
    unfolding timestamps_points
    using distinct_keys_merge [of "values"] by (simp add: distinct_map inj_on_def)
  have "set (map fst ?points) = int ` fst ` set ?d"
    unfolding timestamps_points by (simp add: image_image)
  then have keys: "set (map fst ?points) = int ` timestampsOf values"
    by (simp add: set_keys_merge)
  have empty: "getChartData [] ethPrices exclude = Inr []"
    by (simp add: getChartData_def mergeTimestampValues_def)
  from r len dist keys empty show ?thesis
    by blast
qed

theorem getChartData_one_point_per_timestamp_witness:
  "\<exists>points.
     getChartData
       [(''P1'', [(100, [\<lparr>recordTimestamp = 100, source = Native, val = 500, associated = False\<rparr>]),
                  (200, [\<lparr>recordTimestamp = 200, source = External, val = 7, associated = False\<rparr>])]),
        (''P2'', [(100, [\<lparr>recordTimestamp = 100, source = Canonical, val = 30, associated = True\<rparr>])])]
       [100 \<mapsto> 2000, 200 \<mapsto> 1900] False = Inr points
     \<and> length points = 2 \<and> distinct (map fst points) \<and> set (map fst points) = {100, 200}"
proof -
  let ?vs =
    "[(''P1'', [(100, [\<lparr>recordTimestamp = 100, source = Native, val = 500, associated = False\<rparr>]),
                (200, [\<lparr>recordTimestamp = 200, source = External, val = 7, associated = False\<rparr>])]),
      (''P2'', [(100, [\<lparr>recordTimestamp = 100, source = Canonical, val = 30, associated = True\<rparr>])])]"
  let ?prices = "[100 \<mapsto> 2000, 200 \<mapsto> 1900] :: nat \<rightharpoonup> real"
  have ts: "timestampsOf ?vs = {100, 200}"
    by (auto simp: timestampsOf_def allEntries_def)
  have h: "\<forall>t \<in> timestampsOf ?vs. hasEthPrice ?prices t"
    unfolding ts by (simp add: hasEthPrice_def)
  have c: "card {100, 200 :: nat} = 2" by simp
  have i: "int ` {100, 200} = {100, 200}" by simp
  show ?thesis
    using getChartData_one_point_per_timestamp [OF h, of False] unfolding ts c i by blast
qed

text \<open>
  C2. For a price map of positive prices: if some timestamp of the project-value map has
  no entry in the price map, \<open>getChartData\<close> fails with the "No ETH price" error for such a
  timestamp and returns no chart at all; when every timestamp of the value map has a price
  entry, it does not fail and returns a chart.
\<close>

theorem getChartData_fails_without_price:
  assumes "\<forall>t p. ethPrices t = Some p \<longrightarrow> 0 < p"
  shows "((\<exists>t \<in> timestampsOf values. ethPrices t = None) \<longrightarrow>
      (\<exists>t \<in> timestampsOf values. ethPrices t = None
         \<and> getChartData values ethPrices exclude = Inl (NoEthPrice t)))
   \<and> ((\<forall>t \<in> timestampsOf values. ethPrices t \<noteq> None) \<longrightarrow>
      (\<exists>points. getChartData values ethPrices exclude = Inr points))"
proof (intro conjI impI)
  have accepted: "hasEthPrice ethPrices t \<longleftrightarrow> ethPrices t \<noteq> None" for t
    using assms by (cases "ethPrices t") (auto simp: hasEthPrice_def)
  {
    assume "\<exists>t \<in> timestampsOf values. ethPrices t = None"
    then obtain t where t: "t \<in> timestampsOf values" "\<not> hasEthPrice ethPrices t"
      by (auto simp: accepted)
    show "\<exists>t \<in> timestampsOf values. ethPrices t = None
           \<and> getChartData values ethPrices exclude = Inl (NoEthPrice t)"
    proof (cases "getChartData values ethPrices exclude")
      case (Inl err)
      then show ?thesis
        using getChartData_Inl [of "values" ethPrices exclude err] by (auto simp: accepted)
    next
      case (Inr points)
      then have "\<forall>t \<in> timestampsOf values. hasEthPrice ethPrices t"
        by (rule getChartData_Inr_D)
      with t show ?thesis by blast
    qed
  next
    assume "\<forall>t \<in> timestampsOf values. ethPrices t \<noteq> None"
    then have "\<And>t. t \<in> timestampsOf values \<Longrightarrow> hasEthPrice ethPrices t"
      by (simp add: accepted)
    then show "\<exists>points. getChartData values ethPrices exclude = Inr points"
      by (simp add: getChartData_Inr)
  }
qed

theorem getChartData_fails_without_price_witness:
  "getChartData [(''P1'', [(100, []), (200, [])])] [100 \<mapsto> 2000] False = Inl (NoEthPrice 200)
   \<and> (\<exists>points. getChartData [(''P1'', [(100, []), (200, [])])] [100 \<mapsto> 2000, 200 \<mapsto> 1900] False
         = Inr points)"
proof -
  let ?vs = "[(''P1'', [(100, []), (200, [])])] :: ProjectValues"
  let ?one = "[100 \<mapsto> 2000] :: nat \<rightharpoonup> real"
  let ?both = "[100 \<mapsto> 2000, 200 \<mapsto> 1900] :: nat \<rightharpoonup> real"
  have ts: "timestampsOf ?vs = {100, 200}"
    by (auto simp: timestampsOf_def allEntries_def)
  have p1: "\<forall>t p. ?one t = Some p \<longrightarrow> 0 < p"
    by (simp split: if_splits)
  have p2: "\<forall>t p. ?both t = Some p \<longrightarrow> 0 < p"
    by (simp split: if_splits)
  have h1: "\<exists>t \<in> timestampsOf ?vs. ?one t = None"
    unfolding ts by simp
  have h2: "\<forall>t \<in> timestampsOf ?vs. ?both t \<noteq> None"
    unfolding ts by simp
  from getChartData_fails_without_price [OF p1, of ?vs False] h1
  have "\<exists>t \<in> timestampsOf ?vs. ?one t = None \<and> getChartData ?vs ?one False = Inl (NoEthPrice t)"
    by blast
  then have "getChartData ?vs ?one False = Inl (NoEthPrice 200)"
    unfolding ts by simp
  moreover from getChartData_fails_without_price [OF p2, of ?vs False] h2
  have "\<exists>points. getChartData ?vs ?both False = Inr points"
    by blast
  ultimately show ?thesis by blast
qed

text \<open>
  C3. The latest-total step of \<open>getCachedTvlChartData\<close> takes the last element of its
  chart-point sequence, in sequence order, and fails with the "No latest value" error
  exactly when the sequence is empty. Inside \<open>getCachedTvlChartData\<close> the sequence is the
  chart of the last week, so the whole call fails with that error exactly when the values
  of the last week have no timestamp.
\<close>

theorem latestValue_is_last_or_NoLatestValue:
  "latestValue points = (if points = [] then Inl NoLatestValue else Inr (last points))
   \<and> (latestTotal points = Inl err \<longleftrightarrow> points = [] \<and> err = NoLatestValue)
   \<and> (getCachedTvlChartData getTvlValuesForProjects ethPrices range' excludeAssociated
          = Inl NoLatestValue
        \<longleftrightarrow> timestampsOf (getTvlValuesForProjects ''7d'') = {})"
proof -
  have 1: "latestValue points = (if points = [] then Inl NoLatestValue else Inr (last points))"
    by (simp add: latestValue_def arrayAt_last)
  let ?week = "getChartData (getTvlValuesForProjects ''7d'') ethPrices (excludeAssociated = Some True)"
  let ?all = "getChartData (getTvlValuesForProjects range') ethPrices (excludeAssociated = Some True)"
  have 3: "getCachedTvlChartData getTvlValuesForProjects ethPrices range' excludeAssociated
          = Inl NoLatestValue
        \<longleftrightarrow> timestampsOf (getTvlValuesForProjects ''7d'') = {}"
  proof (cases ?week)
    case (Inl e)
    then have "e \<noteq> NoLatestValue"
      using getChartData_not_NoLatestValue by metis
    moreover from Inl have "timestampsOf (getTvlValuesForProjects ''7d'') \<noteq> {}"
      using getChartData_no_points_iff by (metis sum.distinct(1))
    ultimately show ?thesis using Inl
      by (simp add: getCachedTvlChartData_def Let_def)
  next
    case (Inr lastWeekChart)
    show ?thesis
    proof (cases "lastWeekChart = []")
      case True
      with Inr have "timestampsOf (getTvlValuesForProjects ''7d'') = {}"
        using getChartData_no_points_iff by metis
      moreover have "latestTotal [] = Inl NoLatestValue"
        by (simp add: latestTotal_Inl_iff)
      ultimately show ?thesis using Inr True
        by (simp add: getCachedTvlChartData_def Let_def)
    next
      case False
      with Inr have ne: "timestampsOf (getTvlValuesForProjects ''7d'') \<noteq> {}"
        using getChartData_no_points_iff by (metis sum.inject(2))
      from False obtain t where t: "latestTotal lastWeekChart = Inr t"
        using latestTotal_Inl_iff [of lastWeekChart] by (cases "latestTotal lastWeekChart") auto
      have "?all \<noteq> Inl NoLatestValue" by (rule getChartData_not_NoLatestValue)
      then have "(case ?all of Inl e \<Rightarrow> Inl e | Inr c \<Rightarrow> Inr \<lparr> total = t, chart = c \<rparr>) \<noteq> Inl NoLatestValue"
        by (cases ?all) auto
      with Inr t ne show ?thesis
        by (simp add: getCachedTvlChartData_def Let_def)
    qed
  qed
  from 1 3 show ?thesis by (simp add: latestTotal_Inl_iff)
qed



text \<open>
  C5, with components that are not rescaled. Every emitted chart point is the tuple
  \<open>(timestamp, native, canonical, external, price * 100)\<close>, where each summed component
  is the fixed-point integer sum converted to a number as it is (\<open>Number(summed.native)\<close>,
  the sum itself below \<open>2^53\<close>), without rescaling, and the product is JavaScript's. For
  \<open>valuesByProject = {P1: {100: [{source:'native', value:500}]}}\<close>,
  \<open>priceByTimestamp = {100: 2000}\<close> and \<open>excludeAssociatedTokens = false\<close> the chart is
  \<open>[(100, 500, 0, 0, 200000)]\<close>.
\<close>

theorem getChartData_point_components:
  "(getChartData values ethPrices exclude = Inr points \<longrightarrow>
      (\<forall>point \<in> set points. \<exists>t p. t \<in> timestampsOf values \<and> ethPrices t = Some p
         \<and> point = (int t, bigintToNumber (native (summedAt values exclude t)),
                     bigintToNumber (canonical (summedAt values exclude t)),
                     bigintToNumber (external (summedAt values exclude t)),
                     jsMultiply p 100)))
   \<and> (b < 2 ^ 53 \<longrightarrow> bigintToNumber b = real b)
   \<and> getChartData
        [(''P1'', [(100, [\<lparr>recordTimestamp = 100, source = Native, val = 500, associated = False\<rparr>])])]
        [100 \<mapsto> 2000] False = Inr [(100, 500, 0, 0, 200000)]"
proof (intro conjI impI ballI)
  fix point
  assume r: "getChartData values ethPrices exclude = Inr points" and p: "point \<in> set points"
  from r have all: "\<forall>t \<in> timestampsOf values. hasEthPrice ethPrices t"
    by (rule getChartData_Inr_D)
  from p getChartData_points [OF r] obtain t where t: "t \<in> set (map fst (mergeTimestampValues values))"
    and eq: "point = (int t, bigintToNumber (native (summedAt values exclude t)),
               bigintToNumber (canonical (summedAt values exclude t)),
               bigintToNumber (external (summedAt values exclude t)),
               jsMultiply (the (ethPrices t)) 100)"
    by auto
  from t have ts: "t \<in> timestampsOf values"
    using set_keys_merge [of "values"] by simp
  with all obtain p where "ethPrices t = Some p"
    by (auto simp: hasEthPrice_iff)
  with ts eq show "\<exists>t p. t \<in> timestampsOf values \<and> ethPrices t = Some p
         \<and> point = (int t, bigintToNumber (native (summedAt values exclude t)),
                     bigintToNumber (canonical (summedAt values exclude t)),
                     bigintToNumber (external (summedAt values exclude t)),
                     jsMultiply p 100)"
    by auto
next
  assume "b < 2 ^ 53"
  then show "bigintToNumber b = real b"
    by (rule bigintToNumber_exact)
next
  show "getChartData
        [(''P1'', [(100, [\<lparr>recordTimestamp = 100, source = Native, val = 500, associated = False\<rparr>])])]
        [100 \<mapsto> 2000] False = Inr [(100, 500, 0, 0, 200000)]"
    by (simp add: getChartData_def mergeTimestampValues_def addEntry_def setProp_def getProp_def
        isArrayIndex_def chartPoint_def sumValuesPerSource_def sumSource_def
        jsMultiply_def toDouble_numeral bigintToNumber_numeral)
qed

theorem getChartData_point_components_witness:
  "(\<exists>t p. t \<in> {100::nat} \<and> [100 \<mapsto> 2000 :: real] t = Some p
     \<and> (100, 500, 0, 0, 200000) =
        (int t,
         bigintToNumber (native (summedAt
           [(''P1'', [(100, [\<lparr>recordTimestamp = 100, source = Native, val = 500, associated = False\<rparr>])])]
           False t)),
         bigintToNumber (canonical (summedAt
           [(''P1'', [(100, [\<lparr>recordTimestamp = 100, source = Native, val = 500, associated = False\<rparr>])])]
           False t)),
         bigintToNumber (external (summedAt
           [(''P1'', [(100, [\<lparr>recordTimestamp = 100, source = Native, val = 500, associated = False\<rparr>])])]
           False t)),
         jsMultiply p 100))
   \<and> bigintToNumber 500 = real 500"
proof -
  let ?vs = "[(''P1'', [(100, [\<lparr>recordTimestamp = 100, source = Native, val = 500, associated = False\<rparr>])])]"
  let ?prices = "[100 \<mapsto> 2000] :: nat \<rightharpoonup> real"
  have ts: "timestampsOf ?vs = {100}"
    by (simp add: timestampsOf_def allEntries_def)
  note w = getChartData_point_components [of ?vs ?prices False "[(100, 500, 0, 0, 200000)]" 500]
  have r: "getChartData ?vs ?prices False = Inr [(100, 500, 0, 0, 200000)]"
    using w by (elim conjE)
  have b: "(500 :: nat) < 2 ^ 53" by simp
  from w r have "\<forall>point \<in> set [(100, 500, 0, 0, 200000)]. \<exists>t p. t \<in> timestampsOf ?vs \<and> ?prices t = Some p
         \<and> point = (int t, bigintToNumber (native (summedAt ?vs False t)),
                     bigintToNumber (canonical (summedAt ?vs False t)),
                     bigintToNumber (external (summedAt ?vs False t)),
                     jsMultiply p 100)"
    by blast
  moreover from w b have "bigintToNumber 500 = real 500"
    by blast
  ultimately show ?thesis
    unfolding ts by simp
qed

text \<open>
  The example of the spec has the native component divided by the fixed-point scale,
  \<open>5.0\<close>. The code divides by \<open>100\<close> only later, in the latest total.
\<close>

theorem example_chart_is_not_rescaled:
  "getChartData
     [(''P1'', [(100, [\<lparr>recordTimestamp = 100, source = Native, val = 500, associated = False\<rparr>])])]
     [100 \<mapsto> 2000] False \<noteq> Inr [(100, 5, 0, 0, 200000)]"
  by (simp add: getChartData_def mergeTimestampValues_def addEntry_def setProp_def getProp_def
      isArrayIndex_def chartPoint_def sumValuesPerSource_def sumSource_def
      jsMultiply_def toDouble_numeral bigintToNumber_numeral)

text \<open>
  C6. The merged map holds, for each timestamp, the records of every entry of every
  project with that timestamp (none is dropped). Reordering the projects of the
  project-value map permutes the merged records of a timestamp, leaves its summed native,
  canonical and external values unchanged, and \<open>getChartData\<close> returns the same chart
  points.
\<close>

theorem project_order_irrelevant:
  assumes "mset values' = mset values"
  shows "getProp (mergeTimestampValues values) t =
      (if t \<in> timestampsOf values then Some (recordsAt t (allEntries values)) else None)
    \<and> mset (recordsAt t (allEntries values')) = mset (recordsAt t (allEntries values))
    \<and> summedAt values' exclude t = summedAt values exclude t
    \<and> (getChartData values ethPrices exclude = Inr points \<longrightarrow>
         (\<exists>points'. getChartData values' ethPrices exclude = Inr points'
                     \<and> mset points' = mset points))"
proof -
  define point where "point vs t = (int t, bigintToNumber (native (summedAt vs exclude t)),
               bigintToNumber (canonical (summedAt vs exclude t)),
               bigintToNumber (external (summedAt vs exclude t)),
               jsMultiply (the (ethPrices t)) 100)" for vs t
  have same: "point values' = point values"
    by (rule ext) (simp add: point_def summedAt_cong [OF assms])
  have pts: "ps = map (point vs) (map fst (mergeTimestampValues vs))"
    if "getChartData vs ethPrices exclude = Inr ps" for vs ps
    using getChartData_points [OF that] unfolding point_def .
  have 1: "getProp (mergeTimestampValues values) t =
      (if t \<in> timestampsOf values then Some (recordsAt t (allEntries values)) else None)"
    by (rule getProp_merge)
  have 2: "mset (recordsAt t (allEntries values')) = mset (recordsAt t (allEntries values))"
    by (rule mset_recordsAt_cong [OF mset_allEntries_cong [OF assms]])
  have 3: "summedAt values' exclude t = summedAt values exclude t"
    by (rule summedAt_cong [OF assms])
  have 4: "getChartData values ethPrices exclude = Inr points \<longrightarrow>
         (\<exists>points'. getChartData values' ethPrices exclude = Inr points'
                     \<and> mset points' = mset points)"
  proof
    assume r: "getChartData values ethPrices exclude = Inr points"
    then have "\<forall>t \<in> timestampsOf values. hasEthPrice ethPrices t"
      by (rule getChartData_Inr_D)
    then have "\<And>t. t \<in> timestampsOf values' \<Longrightarrow> hasEthPrice ethPrices t"
      by (simp add: timestampsOf_cong [OF assms])
    then have "getChartData values' ethPrices exclude =
        Inr (map (pointAt ethPrices exclude) (mergeTimestampValues values'))"
      by (rule getChartData_Inr)
    then obtain points' where r': "getChartData values' ethPrices exclude = Inr points'"
      by blast
    have "mset points' = mset (map (point values') (map fst (mergeTimestampValues values')))"
      by (simp only: pts [OF r', symmetric])
    also have "\<dots> = image_mset (point values) (mset (map fst (mergeTimestampValues values')))"
      unfolding same by (simp only: mset_map)
    also have "\<dots> = image_mset (point values) (mset (map fst (mergeTimestampValues values)))"
      by (simp only: mset_keys_merge_cong [OF assms])
    also have "\<dots> = mset (map (point values) (map fst (mergeTimestampValues values)))"
      by (simp only: mset_map)
    also have "\<dots> = mset points"
      by (simp only: pts [OF r, symmetric])
    finally have "mset points' = mset points" .
    with r' show "\<exists>points'. getChartData values' ethPrices exclude = Inr points'
                     \<and> mset points' = mset points"
      by blast
  qed
  from 1 2 3 4 show ?thesis by (intro conjI)
qed

theorem project_order_irrelevant_witness:
  "\<exists>points'.
     getChartData
       [(''P2'', [(100, [\<lparr>recordTimestamp = 100, source = Native, val = 30, associated = True\<rparr>])]),
        (''P1'', [(100, [\<lparr>recordTimestamp = 100, source = Native, val = 500, associated = False\<rparr>]),
                  (200, [\<lparr>recordTimestamp = 200, source = External, val = 7, associated = False\<rparr>])])]
       [100 \<mapsto> 2000, 200 \<mapsto> 1900] False = Inr points'
     \<and> mset points' = mset [(100, 530, 0, 0, 200000), (200, 0, 0, 7, 190000)]"
proof -
  let ?p1 = "(''P1'', [(100, [\<lparr>recordTimestamp = 100, source = Native, val = 500, associated = False\<rparr>]),
                  (200, [\<lparr>recordTimestamp = 200, source = External, val = 7, associated = False\<rparr>])])"
  let ?p2 = "(''P2'', [(100, [\<lparr>recordTimestamp = 100, source = Native, val = 30, associated = True\<rparr>])])"
  let ?prices = "[100 \<mapsto> 2000, 200 \<mapsto> 1900] :: nat \<rightharpoonup> real"
  have h: "mset [?p2, ?p1] = mset [?p1, ?p2]"
    by (simp add: add_mset_commute)
  have r: "getChartData [?p1, ?p2] ?prices False = Inr [(100, 530, 0, 0, 200000), (200, 0, 0, 7, 190000)]"
    by (simp add: getChartData_def mergeTimestampValues_def addEntry_def setProp_def getProp_def
        isArrayIndex_def chartPoint_def sumValuesPerSource_def sumSource_def
        jsMultiply_def toDouble_numeral bigintToNumber_numeral)
  have "getChartData [?p1, ?p2] ?prices False = Inr [(100, 530, 0, 0, 200000), (200, 0, 0, 7, 190000)] \<longrightarrow>
      (\<exists>points'. getChartData [?p2, ?p1] ?prices False = Inr points'
          \<and> mset points' = mset [(100, 530, 0, 0, 200000), (200, 0, 0, 7, 190000)])"
    using project_order_irrelevant [OF h, of 100 False ?prices "[(100, 530, 0, 0, 200000), (200, 0, 0, 7, 190000)]"]
    by (elim conjE)
  then show ?thesis using r by (rule mp)
qed

text \<open>
  C7. On the same input, \<open>getChartData\<close> with \<open>excludeAssociatedTokens = true\<close> returns a
  chart exactly when it does with \<open>false\<close>, with the same timestamps in the same order, and
  at each timestamp its native and canonical totals are at most those of the chart with
  \<open>false\<close> (external total and price are the same).
\<close>

theorem excludeAssociatedTokens_never_increases:
  assumes "getChartData values ethPrices False = Inr included"
  shows "\<exists>excluded. getChartData values ethPrices True = Inr excluded
    \<and> list_all2 (\<lambda>(t, n, c, e, p) (t', n', c', e', p').
          t = t' \<and> n \<le> n' \<and> c \<le> c' \<and> e = e' \<and> p = p') excluded included"
proof -
  let ?keys = "map fst (mergeTimestampValues values)"
  let ?point = "\<lambda>exclude t. (int t, bigintToNumber (native (summedAt values exclude t)),
               bigintToNumber (canonical (summedAt values exclude t)),
               bigintToNumber (external (summedAt values exclude t)),
               jsMultiply (the (ethPrices t)) 100)"
  have inc: "included = map (?point False) ?keys"
    using assms by (rule getChartData_points)
  have "getChartData values ethPrices True =
      Inr (map (pointAt ethPrices True) (mergeTimestampValues values))"
    using assms by (rule getChartData_succeeds_whatever_exclude)
  moreover from this
  have "map (pointAt ethPrices True) (mergeTimestampValues values) = map (?point True) ?keys"
    by (rule getChartData_points)
  moreover have "list_all2 (\<lambda>(t, n, c, e, p) (t', n', c', e', p').
          t = t' \<and> n \<le> n' \<and> c \<le> c' \<and> e = e' \<and> p = p')
        (map (?point True) ?keys) (map (?point False) ?keys)"
    by (simp add: list_all2_map1 list_all2_map2 list_all2_same summedAt_exclude
        bigintToNumber_mono)
  ultimately show ?thesis unfolding inc by simp
qed

theorem excludeAssociatedTokens_never_increases_witness:
  "\<exists>excluded.
     getChartData
       [(''P1'', [(100, [\<lparr>recordTimestamp = 100, source = Native, val = 500, associated = True\<rparr>,
                         \<lparr>recordTimestamp = 100, source = Canonical, val = 40, associated = False\<rparr>])])]
       [100 \<mapsto> 2000] True = Inr excluded
     \<and> list_all2 (\<lambda>(t, n, c, e, p) (t', n', c', e', p').
          t = t' \<and> n \<le> n' \<and> c \<le> c' \<and> e = e' \<and> p = p') excluded [(100, 500, 40, 0, 200000)]"
proof -
  let ?vs = "[(''P1'', [(100, [\<lparr>recordTimestamp = 100, source = Native, val = 500, associated = True\<rparr>,
                       \<lparr>recordTimestamp = 100, source = Canonical, val = 40, associated = False\<rparr>])])]"
  let ?prices = "[100 \<mapsto> 2000] :: nat \<rightharpoonup> real"
  have h: "getChartData ?vs ?prices False = Inr [(100, 500, 40, 0, 200000)]"
    by (simp add: getChartData_def mergeTimestampValues_def addEntry_def setProp_def getProp_def
        isArrayIndex_def chartPoint_def sumValuesPerSource_def sumSource_def
        jsMultiply_def toDouble_numeral bigintToNumber_numeral)
  show ?thesis
    using excludeAssociatedTokens_never_increases [OF h] .
qed

text \<open>
  C8. The chart has one tuple per key of the merged map, in the enumeration order of that
  map; \<open>getChartData\<close> sorts nothing itself. When the timestamps are first inserted in
  ascending order (chronological data from upstream), the enumeration order is that
  insertion order and the chart is ordered by timestamp ascending. For timestamps that are
  array indices the object enumerates its keys in ascending order anyway.
\<close>

theorem chart_in_key_order:
  assumes "getChartData values ethPrices exclude = Inr points"
  shows "map fst points = map (int \<circ> fst) (mergeTimestampValues values)
    \<and> (sorted_wrt (<) (creationOrder values) \<longrightarrow>
         map fst points = map int (creationOrder values) \<and> sorted_wrt (<) (map fst points))
    \<and> ((\<forall>t \<in> timestampsOf values. isArrayIndex t) \<longrightarrow> sorted_wrt (<) (map fst points))"
proof -
  from assms have "points = map (pointAt ethPrices exclude) (mergeTimestampValues values)"
    by (rule getChartData_Inr_D)
  then have keys: "map fst points = map int (map fst (mergeTimestampValues values))"
    by (simp add: fst_pointAt)
  have 1: "map fst points = map (int \<circ> fst) (mergeTimestampValues values)"
    unfolding keys by simp
  have 2: "map fst points = map int (creationOrder values) \<and> sorted_wrt (<) (map fst points)"
    if "sorted_wrt (<) (creationOrder values)"
    unfolding keys using that by (simp add: keys_merge_chronological sorted_wrt_map_int)
  have 3: "sorted_wrt (<) (map fst points)" if "\<forall>t \<in> timestampsOf values. isArrayIndex t"
    unfolding keys sorted_wrt_map_int using that by (rule sorted_keys_merge)
  from 1 2 3 show ?thesis by blast
qed

theorem chart_in_key_order_witness:
  "\<exists>points.
     getChartData
       [(''P1'', [(100, [\<lparr>recordTimestamp = 100, source = Native, val = 500, associated = False\<rparr>]),
                  (200, [\<lparr>recordTimestamp = 200, source = External, val = 7, associated = False\<rparr>])]),
        (''P2'', [(100, [\<lparr>recordTimestamp = 100, source = Canonical, val = 30, associated = True\<rparr>])])]
       [100 \<mapsto> 2000, 200 \<mapsto> 1900] False = Inr points
     \<and> map fst points = map int [100, 200] \<and> sorted_wrt (<) (map fst points)"
proof -
  let ?vs =
    "[(''P1'', [(100, [\<lparr>recordTimestamp = 100, source = Native, val = 500, associated = False\<rparr>]),
                (200, [\<lparr>recordTimestamp = 200, source = External, val = 7, associated = False\<rparr>])]),
      (''P2'', [(100, [\<lparr>recordTimestamp = 100, source = Canonical, val = 30, associated = True\<rparr>])])]"
  let ?prices = "[100 \<mapsto> 2000, 200 \<mapsto> 1900] :: nat \<rightharpoonup> real"
  have r: "getChartData ?vs ?prices False = Inr [(100, 500, 30, 0, 200000), (200, 0, 0, 7, 190000)]"
    by (simp add: getChartData_def mergeTimestampValues_def addEntry_def setProp_def getProp_def
        isArrayIndex_def chartPoint_def sumValuesPerSource_def sumSource_def
        jsMultiply_def toDouble_numeral bigintToNumber_numeral)
  have c: "creationOrder ?vs = [100, 200]"
    by (simp add: creationOrder_def allEntries_def created_def)
  have s: "sorted_wrt (<) (creationOrder ?vs)"
    unfolding c by simp
  have i: "\<forall>t \<in> timestampsOf ?vs. isArrayIndex t"
    by (simp add: timestampsOf_def allEntries_def isArrayIndex_def)
  from chart_in_key_order [OF r] s i r show ?thesis
    unfolding c by blast
qed

text \<open>
  C9. In mock mode, when the configuration of range \<open>'7d'\<close> is seven days at hourly
  resolution, the chart has one point per hourly bucket between \<open>target - 7 days\<close> and
  \<open>target\<close>, both included, where \<open>target\<close> is the start of the current hour: \<open>7 * 24 + 1\<close>
  points, whose timestamps are exactly the full hours of that closed interval. Every
  generated point, for any range, carries the magnitudes \<open>3000, 2000, 1000, 1200\<close>.
\<close>

theorem mock_chart_7d_hourly:
  assumes "getRangeConfig ''7d'' = \<lparr> days = DayCount 7, resolution = Hourly \<rparr>"
  shows "length (chart (getMockTvlChartData getRangeConfig now ''7d'')) = 7 * 24 + 1
    \<and> distinct (map fst (chart (getMockTvlChartData getRangeConfig now ''7d'')))
    \<and> set (map fst (chart (getMockTvlChartData getRangeConfig now ''7d''))) =
        {t. addDays (toStartOf now StartOfHour) (- 7) \<le> t \<and> t \<le> toStartOf now StartOfHour \<and> t mod HOUR = 0}
    \<and> map snd (chart (getMockTvlChartData getRangeConfig now ''7d'')) =
        replicate (7 * 24 + 1) (3000, 2000, 1000, 1200)
    \<and> map snd (chart (getMockTvlChartData getRangeConfig now range')) =
        replicate (length (chart (getMockTvlChartData getRangeConfig now range')))
          (3000, 2000, 1000, 1200)"
proof -
  define target where "target = toStartOf now StartOfHour"
  define start where "start = target - 604800"
  define m where "m = nat ((target - start) div 3600) + 1"
  let ?points = "chart (getMockTvlChartData getRangeConfig now ''7d'')"
  have start: "addDays target (- 7) = start"
    by (simp add: addDays_def DAY_def start_def)
  have m: "m = 169"
    by (simp add: m_def start_def)
  have "generateTimestamps (start, target) Hourly = map (\<lambda>i. start + int i * 3600) [0 ..< m]"
    by (rule generateTimestamps_Hourly) (simp_all add: start_def m_def)
  then have pts: "?points =
      map (\<lambda>timestamp. (timestamp, 3000, 2000, 1000, 1200)) (map (\<lambda>i. start + int i * 3600) [0 ..< m])"
    unfolding mock_chart_timestamps by (simp add: assms target_def [symmetric] start)
  have keys: "map fst ?points = map (\<lambda>i. start + int i * 3600) [0 ..< m]"
    unfolding pts by (simp add: comp_def)
  have "length ?points = m"
    unfolding pts by simp
  then have 1: "length ?points = 7 * 24 + 1"
    unfolding m by simp
  have 2: "distinct (map fst ?points)"
    unfolding keys by (simp add: distinct_map inj_on_def)
  have "(target + (- 168) * 3600) mod 3600 = target mod 3600"
    by (simp only: mod_mult_self1)
  then have "start mod 3600 = 0"
    using toStartOf_Hourly [of now] by (simp add: start_def target_def)
  then have "(\<lambda>i. start + int i * 3600) ` {0 ..< m} =
      {t. start \<le> t \<and> t \<le> start + (int m - 1) * 3600 \<and> t mod 3600 = 0}"
    by (rule hourly_buckets) (simp add: m_def)
  moreover have "start + (int m - 1) * 3600 = target"
    unfolding m by (simp add: start_def)
  ultimately have "set (map fst ?points) = {t. start \<le> t \<and> t \<le> target \<and> t mod 3600 = 0}"
    unfolding keys by simp
  then have 3: "set (map fst ?points) =
      {t. addDays (toStartOf now StartOfHour) (- 7) \<le> t \<and> t \<le> toStartOf now StartOfHour \<and> t mod HOUR = 0}"
    by (simp only: start [symmetric] target_def HOUR_def)
  have 4: "map snd ?points = replicate (7 * 24 + 1) (3000, 2000, 1000, 1200)"
    using mock_chart_magnitudes [of getRangeConfig now "''7d''"] unfolding 1 .
  from 1 2 3 4 mock_chart_magnitudes [of getRangeConfig now range'] show ?thesis
    by (intro conjI)
qed

theorem mock_chart_7d_hourly_witness:
  "length (chart (getMockTvlChartData (\<lambda>r. \<lparr> days = DayCount 7, resolution = Hourly \<rparr>) 1700001234 ''7d'')) = 169
   \<and> set (map fst (chart (getMockTvlChartData (\<lambda>r. \<lparr> days = DayCount 7, resolution = Hourly \<rparr>) 1700001234 ''7d''))) =
      {t. 1699394400 \<le> t \<and> t \<le> 1699999200 \<and> t mod 3600 = 0}"
proof -
  have h: "(\<lambda>r :: string. \<lparr> days = DayCount 7, resolution = Hourly \<rparr>) ''7d'' = \<lparr> days = DayCount 7, resolution = Hourly \<rparr>"
    by simp
  have t: "toStartOf 1700001234 StartOfHour = 1699999200"
    by (simp add: toStartOf_def HOUR_def)
  have a: "addDays 1699999200 (- 7) = 1699394400"
    by (simp add: addDays_def DAY_def)
  have n: "7 * 24 + 1 = (169 :: nat)" by simp
  note w = mock_chart_7d_hourly [of "\<lambda>r. \<lparr> days = DayCount 7, resolution = Hourly \<rparr>" 1700001234,
      OF h, unfolded t a n HOUR_def]
  from w [THEN conjunct1] w [THEN conjunct2, THEN conjunct2, THEN conjunct1]
  show ?thesis by (rule conjI)
qed

text \<open>
  C10. The price check of \<open>getChartData\<close> is by truthiness, not by presence: when the
  price entry of some timestamp is present and equal to \<open>0\<close> the aggregation fails with
  the "No ETH price" error, the same error the callback raises for an absent entry, and a
  chart point is emitted for a timestamp only if its price entry exists and is not zero.
\<close>

theorem getChartData_price_truthiness:
  "((\<exists>t \<in> timestampsOf values. ethPrices t = Some 0) \<longrightarrow>
      (\<exists>t \<in> timestampsOf values. \<not> hasEthPrice ethPrices t
         \<and> getChartData values ethPrices exclude = Inl (NoEthPrice t)))
   \<and> chartPoint (ethPrices(t \<mapsto> 0)) exclude (t, records) = Inl (NoEthPrice t)
   \<and> chartPoint (ethPrices(t := None)) exclude (t, records) = Inl (NoEthPrice t)
   \<and> (getChartData values ethPrices exclude = Inr points \<longrightarrow>
        (\<forall>point \<in> set points. \<exists>t p. fst point = int t \<and> t \<in> timestampsOf values
            \<and> ethPrices t = Some p \<and> p \<noteq> 0))"
proof (intro conjI impI)
  assume "\<exists>t \<in> timestampsOf values. ethPrices t = Some 0"
  then obtain t where t: "t \<in> timestampsOf values" "\<not> hasEthPrice ethPrices t"
    by (auto simp: hasEthPrice_def)
  show "\<exists>t \<in> timestampsOf values. \<not> hasEthPrice ethPrices t
         \<and> getChartData values ethPrices exclude = Inl (NoEthPrice t)"
  proof (cases "getChartData values ethPrices exclude")
    case (Inl err)
    then show ?thesis using getChartData_Inl [of "values" ethPrices exclude err] by auto
  next
    case (Inr points)
    then have "\<forall>t \<in> timestampsOf values. hasEthPrice ethPrices t"
      by (rule getChartData_Inr_D)
    with t show ?thesis by blast
  qed
next
  show "chartPoint (ethPrices(t \<mapsto> 0)) exclude (t, records) = Inl (NoEthPrice t)"
    by (simp add: chartPoint_def)
  show "chartPoint (ethPrices(t := None)) exclude (t, records) = Inl (NoEthPrice t)"
    by (simp add: chartPoint_def)
next
  assume r: "getChartData values ethPrices exclude = Inr points"
  then have all: "\<forall>t \<in> timestampsOf values. hasEthPrice ethPrices t"
    and pts: "points = map (pointAt ethPrices exclude) (mergeTimestampValues values)"
    by (rule getChartData_Inr_D)+
  show "\<forall>point \<in> set points. \<exists>t p. fst point = int t \<and> t \<in> timestampsOf values
            \<and> ethPrices t = Some p \<and> p \<noteq> 0"
  proof
    fix point assume "point \<in> set points"
    with pts obtain e where e: "e \<in> set (mergeTimestampValues values)"
      and eq: "point = pointAt ethPrices exclude e"
      by auto
    from e have t: "fst e \<in> timestampsOf values"
      using set_keys_merge [of "values"] by blast
    with all have "hasEthPrice ethPrices (fst e)" by blast
    then obtain p where "ethPrices (fst e) = Some p" "p \<noteq> 0"
      by (auto simp: hasEthPrice_iff)
    with t eq show "\<exists>t p. fst point = int t \<and> t \<in> timestampsOf values
            \<and> ethPrices t = Some p \<and> p \<noteq> 0"
      by (auto simp: fst_pointAt)
  qed
qed

theorem getChartData_price_truthiness_witness:
  "getChartData [(''P1'', [(100, [])])] [100 \<mapsto> 0] False = Inl (NoEthPrice 100)
   \<and> (\<exists>p. [100 \<mapsto> (2000::real)] (100::nat) = Some p \<and> p \<noteq> 0)"
proof -
  let ?vs = "[(''P1'', [(100, [])])] :: ProjectValues"
  let ?good = "[100 \<mapsto> 2000] :: nat \<rightharpoonup> real"
  have ts: "timestampsOf ?vs = {100}"
    by (simp add: timestampsOf_def allEntries_def)
  have h1: "\<exists>t \<in> timestampsOf ?vs. ([100 \<mapsto> 0] :: nat \<rightharpoonup> real) t = Some 0"
    unfolding ts by simp
  have h2: "getChartData ?vs ?good False = Inr [(100, 0, 0, 0, 200000)]"
    by (simp add: getChartData_def mergeTimestampValues_def addEntry_def setProp_def getProp_def
        isArrayIndex_def chartPoint_def sumValuesPerSource_def sumSource_def
        jsMultiply_def toDouble_numeral bigintToNumber_numeral)
  from getChartData_price_truthiness [of ?vs "[100 \<mapsto> 0]" False] h1
  have "getChartData ?vs [100 \<mapsto> 0] False = Inl (NoEthPrice 100)"
    unfolding ts by simp
  moreover from getChartData_price_truthiness [of ?vs ?good False _ _ "[(100, 0, 0, 0, 200000)]"] h2
  have "\<exists>p. ?good (100::nat) = Some p \<and> p \<noteq> 0"
    unfolding ts by simp
  ultimately show ?thesis by blast
qed

end
